theory Spec2Isabelle
  imports Main "HOL-Library.Finite_Map" "HOL-Library.Sublist"
begin

section \<open>The caching project loader (lib/api-helper/project/CachingProjectLoader.ts)\<close>

text \<open>
  The loader hands a checkout of a repository to a caller's action. A read-only request
  for an exact commit is served from an LRU cache of checkouts; every other request gets a
  fresh checkout whose directory is reclaimed later by a disposal, a timer or the shutdown
  hook. The model is sequential: an \<^verbatim>\<open>async\<close> function is a function from the
  loader's state to an outcome (\<open>Inl\<close> a rejection, \<open>Inr\<close> a value) and the next
  state. A call of an \<^verbatim>\<open>async\<close> function runs, where it is made, up to its first
  \<^verbatim>\<open>await\<close>. When the caller awaits the call, the rest follows at once. When it
  does not (the eviction callback, which the loader never awaits, and the calls collected
  under \<^verbatim>\<open>Promise.all\<close>), the rest runs later: after the calls started with it, and
  while the caller is suspended at its next \<^verbatim>\<open>await\<close>. Interleavings of concurrent
  requests are outside the model.
\<close>

subsection \<open>Values and objects\<close>

text \<open>
  \<^verbatim>\<open>RemoteRepoRef\<close> and \<^verbatim>\<open>HandlerContext\<close> come from the automation client. Of a
  repository reference the loader reads \<^verbatim>\<open>sha\<close>; the repository's identity is its
  owner and name. Of a context it reads \<^verbatim>\<open>lifecycle\<close>, the optional request-scoped
  handle, here the handle's identity.
\<close>

record RepoRef =
  owner :: string
  repo :: string
  sha :: string

record HandlerContext =
  lifecycle :: "nat option"

text \<open>
  Property values. Plain data (clone options) is \<open>JObj\<close> over a finite map, so that
  equality of values is deep value equality whatever the order of the keys; \<open>JFun\<close> is a
  method, known by its name.
\<close>

datatype jsval =
    JUndefined
  | JNull
  | JBool bool
  | JNum int
  | JStr string
  | JObj "(string, jsval) fmap"
  | JRef RepoRef
  | JCtx HandlerContext
  | JFun string

type_synonym props = "(string, jsval) fmap"

text \<open>
  An object: its own enumerable properties and the properties it reaches through its
  prototype only. A \<^verbatim>\<open>GitProject\<close> made by the delegate is a class instance (its
  methods are inherited); an object literal inherits nothing of interest.
\<close>

record jsobject =
  own :: props
  inherited :: props

type_synonym GitProject = jsobject

text \<open>Reading \<^verbatim>\<open>o.k\<close>: the own property, else the inherited one, else \<^verbatim>\<open>undefined\<close>.\<close>

definition getProp :: "jsobject \<Rightarrow> string \<Rightarrow> jsval" where
  "getProp obj k =
     (case fmlookup (own obj) k of
        Some v \<Rightarrow> v
      | None \<Rightarrow> (case fmlookup (inherited obj) k of Some v \<Rightarrow> v | None \<Rightarrow> JUndefined))"

text \<open>What \<^verbatim>\<open>if (v)\<close>, \<^verbatim>\<open>!v\<close> and \<^verbatim>\<open>v && ...\<close> test.\<close>

fun truthy :: "jsval \<Rightarrow> bool" where
  "truthy JUndefined = False"
| "truthy JNull = False"
| "truthy (JBool b) = b"
| "truthy (JNum n) = (n \<noteq> 0)"
| "truthy (JStr s) = (s \<noteq> [])"
| "truthy (JObj m) = True"
| "truthy (JRef r) = True"
| "truthy (JCtx c) = True"
| "truthy (JFun f) = True"

text \<open>\<^verbatim>\<open>_.isEqual\<close> (lodash): deep comparison by value.\<close>

definition isEqual :: "jsval \<Rightarrow> jsval \<Rightarrow> bool" where
  "isEqual a b = (a = b)"

text \<open>
  \<^verbatim>\<open>ProjectLoadingParameters\<close> (lib/spi/project/ProjectLoader.ts, an interface): the
  fields the loader reads. \<^verbatim>\<open>cloneOptions\<close> and \<^verbatim>\<open>context\<close> are optional: \<open>None\<close>
  is a request object without the property.
\<close>

record ProjectLoadingParameters =
  idRef :: RepoRef
  readOnly :: bool
  cloneOptions :: "jsval option"
  contextOpt :: "HandlerContext option"

text \<open>Reading \<^verbatim>\<open>params.cloneOptions\<close>.\<close>

definition paramsCloneOptions :: "ProjectLoadingParameters \<Rightarrow> jsval" where
  "paramsCloneOptions params = (case cloneOptions params of None \<Rightarrow> JUndefined | Some v \<Rightarrow> v)"

text \<open>The own enumerable properties of a request object, as the spread copies them.\<close>

definition paramsProps :: "ProjectLoadingParameters \<Rightarrow> props" where
  "paramsProps params =
     fmap_of_list
       ([(''id'', JRef (idRef params)), (''readOnly'', JBool (readOnly params))]
        @ (case cloneOptions params of None \<Rightarrow> [] | Some v \<Rightarrow> [(''cloneOptions'', v)])
        @ (case contextOpt params of None \<Rightarrow> [] | Some c \<Rightarrow> [(''context'', JCtx c)]))"

text \<open>
  \<^verbatim>\<open>{...project, ...params}\<close>: a new object literal with the own properties of the
  project, overridden by those of the request. Nothing inherited is copied.
\<close>

definition spread :: "jsobject \<Rightarrow> props \<Rightarrow> jsobject" where
  "spread project ps = \<lparr>own = own project ++\<^sub>f ps, inherited = fmempty\<rparr>"

subsection \<open>Errors, storage and the log\<close>

datatype error =
    ENOENT string
  | EACCES string
  | EPERM string
  | TypeError string
  | Failure string

text \<open>
  Storage as \<^verbatim>\<open>fs-extra\<close> shows it to the loader: the paths that exist, those whose
  access is refused, and those whose removal fails.
\<close>

record filesystem =
  existing :: "string set"
  unreadable :: "string set"
  locked :: "string set"

text \<open>
  \<^verbatim>\<open>fs.access(path)\<close>: rejects for a path that is empty, missing, refused or not a
  string.
\<close>

definition fs_access :: "filesystem \<Rightarrow> jsval \<Rightarrow> error + unit" where
  "fs_access f path =
     (case path of
        JStr d \<Rightarrow>
          if d = [] \<or> d \<notin> existing f then Inl (ENOENT d)
          else if d \<in> unreadable f then Inl (EACCES d)
          else Inr ()
      | _ \<Rightarrow> Inl (TypeError ''path''))"

text \<open>\<^verbatim>\<open>fs.pathExists(path)\<close>: whether the access succeeds; it never rejects.\<close>

definition pathExists :: "filesystem \<Rightarrow> jsval \<Rightarrow> bool" where
  "pathExists f path = (case fs_access f path of Inr u \<Rightarrow> True | Inl e \<Rightarrow> False)"

text \<open>A path is within a directory when it is the directory or lies beneath it.\<close>

definition within :: "string \<Rightarrow> string \<Rightarrow> bool" where
  "within d q = (q = d \<or> prefix (d @ ''/'') q)"

text \<open>\<^verbatim>\<open>fs.remove(path)\<close>: removes the path and all beneath it, or rejects and removes nothing.\<close>

definition fs_remove :: "filesystem \<Rightarrow> jsval \<Rightarrow> error + filesystem" where
  "fs_remove f path =
     (case path of
        JStr d \<Rightarrow>
          if d \<in> locked f then Inl (EPERM d)
          else Inr (f\<lparr>existing := Set.filter (\<lambda>q. \<not> within d q) (existing f)\<rparr>)
      | _ \<Rightarrow> Inl (TypeError ''path''))"

datatype reason = Timeout | Disposal | Eviction | Shutdown

text \<open>
  The log. \<open>Deleting\<close> is the debug line of \<^verbatim>\<open>cleanUp\<close>, which carries the directory
  and the reason; the other debug lines are kept by their text, without their arguments.
\<close>

datatype logentry =
    Debug string
  | Deleting jsval reason
  | Warn error

subsection \<open>The loader's state\<close>

text \<open>
  Modelled from the spec: the content key (lib/api-helper/project/support/cacheKey.ts is
  not among the sources). The spec makes it a deterministic function of the repository
  identity and the exact commit hash that differs whenever either differs.
\<close>

datatype key = Key string string string

definition cacheKeyForSha :: "RepoRef \<Rightarrow> key" where
  "cacheKeyForSha r = Key (owner r) (repo r) (sha r)"

text \<open>
  Modelled from the spec: the test \<^verbatim>\<open>sha({ exact: true }).test(s)\<close> of the package
  sha-regex, which the spec describes as a syntactically valid exact commit hash of fixed
  length in hexadecimal.
\<close>

definition shaExact :: "string \<Rightarrow> bool" where
  "shaExact s = (length s = 40 \<and> list_all (\<lambda>c. c \<in> set ''0123456789abcdef'') s)"

text \<open>
  Modelled from the spec: the cache store (lib/api-helper/project/support/LruCache.ts is
  not among the sources). A store of at most \<open>maxEntries\<close> entries, kept from the least
  to the most recently used, with the counters behind \<^verbatim>\<open>stats\<close>.
\<close>

record LruCache =
  maxEntries :: nat
  entries :: "(key \<times> jsobject) list"
  hits :: nat
  gets :: nat

text \<open>A timer set by \<^verbatim>\<open>setTimeout(...).unref()\<close>: the directory its callback reclaims.\<close>

record timer =
  timerDir :: jsval
  delay :: nat
  unref :: bool

text \<open>
  The state: storage, the fields \<^verbatim>\<open>cache\<close> and \<^verbatim>\<open>deleteOnExit\<close> of the loader, the
  timers that are set, the disposals registered with lifecycle handles (handle and
  directory), the reclamations in flight, and the log. A reclamation in flight is a call
  of \<^verbatim>\<open>cleanUp\<close> that nobody awaits and that has passed its guard: its directory and
  reason, the removal still to come. \<open>materializations\<close> is a ghost field: the requests
  passed to the delegate, in order.
\<close>

record state =
  fs :: filesystem
  cache :: LruCache
  deleteOnExit :: "jsval list"
  timers :: "timer list"
  disposables :: "(nat \<times> jsval) list"
  pending :: "(jsval \<times> reason) list"
  logger :: "logentry list"
  materializations :: "ProjectLoadingParameters list"

definition logger_debug :: "string \<Rightarrow> state \<Rightarrow> state" where
  "logger_debug msg s = s\<lparr>logger := logger s @ [Debug msg]\<rparr>"

definition logger_warn :: "error \<Rightarrow> state \<Rightarrow> state" where
  "logger_warn err s = s\<lparr>logger := logger s @ [Warn err]\<rparr>"

subsection \<open>The cache store\<close>

text \<open>
  Modelled from the spec: taking a key out of the store's list, as an eviction and the
  refreshing of an entry do.
\<close>

definition removeKey :: "key \<Rightarrow> (key \<times> jsobject) list \<Rightarrow> (key \<times> jsobject) list" where
  "removeKey k es = filter (\<lambda>e. fst e \<noteq> k) es"

text \<open>
  Modelled from the spec: \<^verbatim>\<open>get(key)\<close> returns the entry or absent, and counts as an
  access of the entry, which becomes the most recently used.
\<close>

definition LruCache_get :: "key \<Rightarrow> state \<Rightarrow> jsobject option \<times> state" where
  "LruCache_get k s =
     (let c = cache s in
      case map_of (entries c) k of
        None \<Rightarrow> (None, s\<lparr>cache := c\<lparr>gets := gets c + 1\<rparr>\<rparr>)
      | Some v \<Rightarrow>
          (Some v,
           s\<lparr>cache := c\<lparr>entries := removeKey k (entries c) @ [(k, v)],
                         hits := hits c + 1, gets := gets c + 1\<rparr>\<rparr>))"

text \<open>
  Modelled from the spec: \<^verbatim>\<open>evict(key)\<close> invokes the eviction callback on the entry and
  removes the entry; a callback that fails where it is invoked is logged and not retried;
  evicting an absent key is a no-op. The store does not wait for what the callback has
  started.
\<close>

definition LruCache_evict ::
  "(jsobject \<Rightarrow> state \<Rightarrow> (error + unit) \<times> state) \<Rightarrow> key \<Rightarrow> state \<Rightarrow> state" where
  "LruCache_evict evictCallback k s =
     (case map_of (entries (cache s)) k of
        None \<Rightarrow> s
      | Some v \<Rightarrow>
          (case evictCallback v s of
             (r, s1) \<Rightarrow>
               let s2 = (case r of Inl e \<Rightarrow> logger_warn e s1 | Inr u \<Rightarrow> s1)
               in s2\<lparr>cache := (cache s2)\<lparr>entries := removeKey k (entries (cache s2))\<rparr>\<rparr>))"

text \<open>
  Modelled from the spec: \<^verbatim>\<open>put(key, entry)\<close>. When the insertion would exceed the
  capacity, the least recently used entry is evicted first. Putting a key that is present
  replaces its entry and is an access.
\<close>

definition LruCache_put ::
  "(jsobject \<Rightarrow> state \<Rightarrow> (error + unit) \<times> state) \<Rightarrow> key \<Rightarrow> jsobject \<Rightarrow> state \<Rightarrow> state" where
  "LruCache_put evictCallback k v s =
     (case map_of (entries (cache s)) k of
        Some old \<Rightarrow> s\<lparr>cache := (cache s)\<lparr>entries := removeKey k (entries (cache s)) @ [(k, v)]\<rparr>\<rparr>
      | None \<Rightarrow>
          let s1 = (if maxEntries (cache s) \<le> length (entries (cache s))
                    then (case entries (cache s) of
                            [] \<Rightarrow> s
                          | lru # rest \<Rightarrow> LruCache_evict evictCallback (fst lru) s)
                    else s)
          in s1\<lparr>cache := (cache s1)\<lparr>entries := entries (cache s1) @ [(k, v)]\<rparr>\<rparr>)"

subsection \<open>Arrays\<close>

text \<open>\<^verbatim>\<open>xs.indexOf(x)\<close>: the first index of \<open>x\<close>, or \<open>-1\<close>.\<close>

fun indexOf :: "'a list \<Rightarrow> 'a \<Rightarrow> int" where
  "indexOf [] x = - 1"
| "indexOf (y # ys) x =
     (if y = x then 0 else (let i = indexOf ys x in if i < 0 then - 1 else i + 1))"

text \<open>
  \<^verbatim>\<open>xs.slice(start, end)\<close>: a new array of the elements from \<open>start\<close> up to \<open>end\<close>
  (a negative index counts from the end); \<open>xs\<close> itself is left as it is.
\<close>

definition js_slice :: "'a list \<Rightarrow> int \<Rightarrow> int \<Rightarrow> 'a list" where
  "js_slice xs start end =
     (let n = int (length xs);
          from = (if start < 0 then max (n + start) 0 else min start n);
          to = (if end < 0 then max (n + end) 0 else min end n)
      in take (nat (to - from)) (drop (nat from) xs))"

subsection \<open>Reclamation\<close>

text \<open>
  \<^verbatim>\<open>cleanUp(dir, reason)\<close> has one \<^verbatim>\<open>await\<close> before its removal, that of its
  guard \<^verbatim>\<open>dir && await fs.pathExists(dir)\<close>. A call asks the guard of storage as it is
  where the call is made.
\<close>

definition cleanUp_begins :: "jsval \<Rightarrow> state \<Rightarrow> bool" where
  "cleanUp_begins dir s = (truthy dir \<and> pathExists (fs s) dir)"

text \<open>
  What a call whose guard held does when it resumes: the debug line, then the removal, in a
  \<^verbatim>\<open>try\<close> whose \<^verbatim>\<open>catch\<close> warns. After a removal the source computes
  \<^verbatim>\<open>this.deleteOnExit.slice(ix, 1)\<close> and drops the result.
\<close>

definition cleanUp_resumes :: "jsval \<Rightarrow> reason \<Rightarrow> state \<Rightarrow> (error + unit) \<times> state" where
  "cleanUp_resumes dir why s =
     (let s1 = s\<lparr>logger := logger s @ [Deleting dir why]\<rparr> in
      (case fs_remove (fs s1) dir of
         Inr f \<Rightarrow>
           let s2 = s1\<lparr>fs := f\<rparr>;
               ix = indexOf (deleteOnExit s2) dir;
               dropped = (if 0 \<le> ix then js_slice (deleteOnExit s2) ix 1 else [])
           in (Inr (), s2)
       | Inl err \<Rightarrow> (Inr (), logger_warn err s1)))"

text \<open>A call that is awaited, with nothing else running before it resumes.\<close>

definition cleanUp :: "jsval \<Rightarrow> reason \<Rightarrow> state \<Rightarrow> (error + unit) \<times> state" where
  "cleanUp dir why s =
     (if cleanUp_begins dir s then cleanUp_resumes dir why s else (Inr (), s))"

text \<open>A call that is not awaited: when its guard holds, the rest of it is in flight.\<close>

definition cleanUp_unawaited :: "jsval \<Rightarrow> reason \<Rightarrow> state \<Rightarrow> state" where
  "cleanUp_unawaited dir why s =
     (if cleanUp_begins dir s then s\<lparr>pending := pending s @ [(dir, why)]\<rparr> else s)"

text \<open>
  The calls in flight resume one after the other; together they reject when one of them
  does.
\<close>

fun resumeAll :: "(jsval \<times> reason) list \<Rightarrow> state \<Rightarrow> (error + unit) \<times> state" where
  "resumeAll [] s = (Inr (), s)"
| "resumeAll (t # ts) s =
     (case cleanUp_resumes (fst t) (snd t) s of
        (r, s1) \<Rightarrow>
          (case resumeAll ts s1 of
             (rs, s2) \<Rightarrow> ((case r of Inl e \<Rightarrow> Inl e | Inr u \<Rightarrow> rs), s2)))"

text \<open>
  The caller is suspended at an \<^verbatim>\<open>await\<close>: the reclamations in flight complete. Their
  outcome goes to nobody.
\<close>

definition settle :: "state \<Rightarrow> state" where
  "settle s = snd (resumeAll (pending s) (s\<lparr>pending := []\<rparr>))"

text \<open>
  The callback given to the cache store: \<^verbatim>\<open>p => this.cleanUp(p.baseDir, "eviction")\<close>. It
  returns the promise of the call, which nothing awaits.
\<close>

definition evictionCallback :: "jsobject \<Rightarrow> state \<Rightarrow> (error + unit) \<times> state" where
  "evictionCallback p s = (Inr (), cleanUp_unawaited (getProp p ''baseDir'') Eviction s)"

text \<open>A timer fires: \<^verbatim>\<open>async () => this.cleanUp(p.baseDir, "timeout")\<close>.\<close>

definition timerFires :: "timer \<Rightarrow> state \<Rightarrow> (error + unit) \<times> state" where
  "timerFires t s = cleanUp (timerDir t) Timeout s"

text \<open>A registered disposal runs: \<^verbatim>\<open>async () => this.cleanUp(p.baseDir, "disposal")\<close>.\<close>

definition disposalRuns :: "nat \<times> jsval \<Rightarrow> state \<Rightarrow> (error + unit) \<times> state" where
  "disposalRuns d s = cleanUp (snd d) Disposal s"

text \<open>
  \<^verbatim>\<open>Promise.all(this.deleteOnExit.map(p => this.cleanUp(p, "shutdown")))\<close>: \<^verbatim>\<open>map\<close>
  makes all the calls, each of which asks its guard of storage as it is then, before any
  of them resumes.
\<close>

definition cleanUpAll :: "jsval list \<Rightarrow> state \<Rightarrow> (error + unit) \<times> state" where
  "cleanUpAll ps s =
     resumeAll (map (\<lambda>p. (p, Shutdown)) (filter (\<lambda>p. cleanUp_begins p s) ps)) s"

text \<open>The shutdown hook.\<close>

definition shutdownHook :: "state \<Rightarrow> (error + int) \<times> state" where
  "shutdownHook s =
     (let s1 = (if 0 < length (deleteOnExit s) then logger_debug ''Deleting cached projects'' s else s)
      in case cleanUpAll (deleteOnExit s1) s1 of
           (Inl e, s2) \<Rightarrow> (Inl e, s2)
         | (Inr u, s2) \<Rightarrow> (Inr 0, s2))"

subsection \<open>Loading\<close>

text \<open>
  The delegate loader, \<^verbatim>\<open>this.delegate\<close>: given a request it leaves a checkout on
  storage and passes the project to its callback, or rejects. The caller's action maps
  the project to its result, or rejects; what it does to the checkout is its own affair,
  and it touches neither the loader nor the directories of other checkouts.
\<close>

type_synonym ProjectLoader =
  "ProjectLoadingParameters \<Rightarrow> filesystem \<Rightarrow> (error + GitProject) \<times> filesystem"

type_synonym 'r WithLoadedProject = "GitProject \<Rightarrow> error + 'r"

text \<open>\<^verbatim>\<open>save(pl, params)\<close>: the project the delegate loads.\<close>

definition save :: "ProjectLoader \<Rightarrow> ProjectLoadingParameters \<Rightarrow> state \<Rightarrow> (error + GitProject) \<times> state" where
  "save pl params s =
     (case pl params (fs s) of
        (r, f) \<Rightarrow> (r, s\<lparr>fs := f, materializations := materializations s @ [params]\<rparr>))"

text \<open>The value of \<^verbatim>\<open>params.context && params.context.lifecycle\<close>.\<close>

definition paramsLifecycle :: "ProjectLoadingParameters \<Rightarrow> nat option" where
  "paramsLifecycle params = (case contextOpt params of None \<Rightarrow> None | Some c \<Rightarrow> lifecycle c)"

definition saveAndRunAction ::
  "ProjectLoader \<Rightarrow> ProjectLoadingParameters \<Rightarrow> 'r WithLoadedProject \<Rightarrow> state \<Rightarrow> (error + 'r) \<times> state" where
  "saveAndRunAction delegate params action s =
     (case save delegate params s of
        (Inl e, s1) \<Rightarrow> (Inl e, s1)
      | (Inr p, s1) \<Rightarrow>
          let s2 =
            (case paramsLifecycle params of
               Some h \<Rightarrow> s1\<lparr>disposables := disposables s1 @ [(h, getProp p ''baseDir'')]\<rparr>
             | None \<Rightarrow>
                 s1\<lparr>timers := timers s1 @ [\<lparr>timerDir = getProp p ''baseDir'', delay = 10000, unref = True\<rparr>],
                    deleteOnExit := deleteOnExit s1 @ [getProp p ''baseDir'']\<rparr>)
          in (action p, s2))"

definition cachedProjectIsValid :: "jsobject \<Rightarrow> ProjectLoadingParameters \<Rightarrow> state \<Rightarrow> error + bool" where
  "cachedProjectIsValid project params s =
     (if \<not> isEqual (getProp project ''cloneOptions'') (paramsCloneOptions params) then Inr False
      else (case fs_access (fs s) (getProp project ''baseDir'') of
              Inl e \<Rightarrow> Inr False
            | Inr u \<Rightarrow> Inr True))"

text \<open>
  \<^verbatim>\<open>doWithProject(params, action)\<close>. On the cached path \<^verbatim>\<open>this.cache.evict(key)\<close> and
  \<^verbatim>\<open>this.cache.put(key, ...)\<close> are not awaited, so the reclamation that either of them
  starts is in flight when the call goes on: the delegate is started on storage that still
  holds the directory of an evicted entry, and the removal lands while the call awaits the
  delegate, or the action.
\<close>

definition doWithProject ::
  "ProjectLoader \<Rightarrow> ProjectLoadingParameters \<Rightarrow> 'r WithLoadedProject \<Rightarrow> state \<Rightarrow> (error + 'r) \<times> state" where
  "doWithProject delegate params action s =
     (if \<not> readOnly params then
        saveAndRunAction delegate params action
          (logger_debug ''Forcing fresh clone for non readonly use'' s)
      else if \<not> shaExact (sha (idRef params)) then
        saveAndRunAction delegate params action
          (logger_debug ''Forcing fresh clone for branch use'' s)
      else
        let key = cacheKeyForSha (idRef params) in
        (case LruCache_get key (logger_debug ''Attempting to reuse clone for readonly use'' s) of
           (project, s1) \<Rightarrow>
             (case (case project of
                      None \<Rightarrow> (Inr None, s1)
                    | Some p \<Rightarrow>
                        (case cachedProjectIsValid p params s1 of
                           Inl e \<Rightarrow> (Inl e, s1)
                         | Inr valid \<Rightarrow>
                             if valid then (Inr (Some p), s1)
                             else (Inr None,
                                   LruCache_evict evictionCallback key
                                     (logger_debug ''Evicting project from cache'' s1))))
              of
                (Inl e, s2) \<Rightarrow> (Inl e, s2)
              | (Inr (Some p), s2) \<Rightarrow> (action p, logger_debug ''About to invoke action'' s2)
              | (Inr None, s2) \<Rightarrow>
                  (case save delegate params s2 of
                     (Inl e, s3) \<Rightarrow> (Inl e, settle s3)
                   | (Inr p, s3) \<Rightarrow>
                       (action p,
                        settle
                          (logger_debug ''About to invoke action''
                             (LruCache_put evictionCallback key (spread p (paramsProps params))
                                (logger_debug ''Caching project'' (settle s3)))))))))"

text \<open>
  The constructor: an empty store of \<^verbatim>\<open>maxEntries\<close> entries, 20 when the argument is
  left out, with nothing listed, set, registered or in flight.
\<close>

definition newCachingProjectLoader :: "nat option \<Rightarrow> filesystem \<Rightarrow> state" where
  "newCachingProjectLoader maxEntriesOpt f =
     \<lparr>fs = f,
      cache = \<lparr>maxEntries = (case maxEntriesOpt of None \<Rightarrow> 20 | Some n \<Rightarrow> n),
               entries = [], hits = 0, gets = 0\<rparr>,
      deleteOnExit = [], timers = [], disposables = [], pending = [], logger = [],
      materializations = []\<rparr>"

subsection \<open>Sequences of operations\<close>

text \<open>
  An operation on the cache store as the loader has constructed it, with its eviction
  callback, and a sequence of requests made of the loader one after the other.
\<close>

datatype cacheOp = Get key | Put key jsobject | Evict key

fun applyOp :: "cacheOp \<Rightarrow> state \<Rightarrow> state" where
  "applyOp (Get k) s = snd (LruCache_get k s)"
| "applyOp (Put k v) s = LruCache_put evictionCallback k v s"
| "applyOp (Evict k) s = LruCache_evict evictionCallback k s"

fun requests ::
  "ProjectLoader \<Rightarrow> 'r WithLoadedProject \<Rightarrow> ProjectLoadingParameters list \<Rightarrow> state \<Rightarrow> state" where
  "requests delegate action [] s = s"
| "requests delegate action (p # ps) s =
     requests delegate action ps (snd (doWithProject delegate p action s))"

text \<open>The store holds no more entries than its capacity, which is positive.\<close>

definition bounded :: "state \<Rightarrow> bool" where
  "bounded s = (0 < maxEntries (cache s) \<and> length (entries (cache s)) \<le> maxEntries (cache s))"

subsection \<open>A sample delegate and sample requests\<close>

text \<open>
  The inputs at which the theorems below are instantiated: a delegate that clones every
  repository into a directory of its own under \<^verbatim>\<open>/tmp\<close>, an action that returns the
  directory it was given, and requests for the commit \<^verbatim>\<open>"a" * 40\<close> of a repository
  \<^verbatim>\<open>r\<close>, read-only, for its branch \<^verbatim>\<open>main\<close>, and for writing.
\<close>

definition exSha :: string where
  "exSha = replicate 40 CHR ''a''"

definition exRef :: RepoRef where
  "exRef = \<lparr>owner = ''atomist'', repo = ''r'', sha = exSha\<rparr>"

definition exRequest :: ProjectLoadingParameters where
  "exRequest = \<lparr>idRef = exRef, readOnly = True, cloneOptions = None, contextOpt = None\<rparr>"

definition exBranchRequest :: ProjectLoadingParameters where
  "exBranchRequest = exRequest\<lparr>idRef := exRef\<lparr>sha := ''main''\<rparr>\<rparr>"

definition exWriteRequest :: ProjectLoadingParameters where
  "exWriteRequest = exRequest\<lparr>readOnly := False, contextOpt := Some \<lparr>lifecycle = Some 7\<rparr>\<rparr>"

definition exDir :: "RepoRef \<Rightarrow> string" where
  "exDir r = ''/tmp/'' @ repo r @ ''-'' @ sha r"

definition exProject :: "RepoRef \<Rightarrow> GitProject" where
  "exProject r =
     \<lparr>own = fmap_of_list [(''baseDir'', JStr (exDir r)), (''id'', JRef r)],
      inherited = fmap_of_list [(''findFile'', JFun ''findFile'')]\<rparr>"

definition exDelegate :: ProjectLoader where
  "exDelegate params f =
     (Inr (exProject (idRef params)), f\<lparr>existing := insert (exDir (idRef params)) (existing f)\<rparr>)"

definition exAction :: "jsval WithLoadedProject" where
  "exAction p = Inr (getProp p ''baseDir'')"

definition exStorage :: filesystem where
  "exStorage = \<lparr>existing = {}, unreadable = {}, locked = {}\<rparr>"

text \<open>A loader with one bypass checkout pending: its directory exists and is listed.\<close>

definition exPending :: state where
  "exPending =
     (newCachingProjectLoader None (exStorage\<lparr>existing := {''/tmp/r-main''}\<rparr>))
       \<lparr>deleteOnExit := [JStr ''/tmp/r-main'']\<rparr>"

text \<open>The same checkout with a directory whose removal fails.\<close>

definition exLocked :: state where
  "exLocked =
     (newCachingProjectLoader None
        (exStorage\<lparr>existing := {''/tmp/r-main''}, locked := {''/tmp/r-main''}\<rparr>))
       \<lparr>deleteOnExit := [JStr ''/tmp/r-main'']\<rparr>"

text \<open>A delegate whose clone fails, and the read-only request with clone options.\<close>

definition exFailingDelegate :: ProjectLoader where
  "exFailingDelegate params f = (Inl (Failure ''clone failed''), f)"

definition exDeepRequest :: ProjectLoadingParameters where
  "exDeepRequest = exRequest\<lparr>cloneOptions := Some (JObj (fmap_of_list [(''depth'', JNum 1)]))\<rparr>"

text \<open>
  The loader after one read-only request on an empty store, the entry it holds then, and
  the same loader once the entry's directory has been deleted behind its back.
\<close>

definition exCached :: state where
  "exCached = snd (doWithProject exDelegate exRequest exAction (newCachingProjectLoader None exStorage))"

definition exEntry :: jsobject where
  "exEntry = spread (exProject exRef) (paramsProps exRequest)"

definition exStale :: state where
  "exStale = exCached\<lparr>fs := exStorage\<rparr>"

text \<open>A read-only request for another commit of the same repository.\<close>

definition exOtherRequest :: ProjectLoadingParameters where
  "exOtherRequest = exRequest\<lparr>idRef := exRef\<lparr>sha := replicate 40 CHR ''b''\<rparr>\<rparr>"

text \<open>An eviction callback that fails, and the loader of capacity 1 after one request.\<close>

definition exFailingCallback :: "jsobject \<Rightarrow> state \<Rightarrow> (error + unit) \<times> state" where
  "exFailingCallback v s = (Inl (Failure ''callback failed''), s)"

definition exFull :: state where
  "exFull = requests exDelegate exAction [exRequest] (newCachingProjectLoader (Some 1) exStorage)"


definition exLockedStorage :: filesystem where
  "exLockedStorage = exStorage\<lparr>locked := {exDir exRef}\<rparr>"

section \<open>Properties\<close>

subsection \<open>Basic facts about the store and the reclamation routine\<close>

lemma logger_debug_fields [simp]:
  "fs (logger_debug m s) = fs s"
  "cache (logger_debug m s) = cache s"
  "deleteOnExit (logger_debug m s) = deleteOnExit s"
  "timers (logger_debug m s) = timers s"
  "disposables (logger_debug m s) = disposables s"
  "pending (logger_debug m s) = pending s"
  "materializations (logger_debug m s) = materializations s"
  "logger (logger_debug m s) = logger s @ [Debug m]"
  by (simp_all add: logger_debug_def)

lemma map_of_removeKey: "map_of (removeKey k es) = (map_of es)(k := None)"
  by (induction es) (auto simp: removeKey_def fun_eq_iff)

lemma length_removeKey: "length (removeKey k es) \<le> length es"
  by (simp add: removeKey_def)

lemma length_removeKey_present: "map_of es k = Some v \<Longrightarrow> length (removeKey k es) < length es"
  by (induction es) (auto simp: removeKey_def le_imp_less_Suc split: if_splits)

lemma LruCache_get_fst: "fst (LruCache_get k s) = map_of (entries (cache s)) k"
  by (simp add: LruCache_get_def Let_def split: option.splits)

lemma LruCache_get_fields [simp]:
  "fs (snd (LruCache_get k s)) = fs s"
  "deleteOnExit (snd (LruCache_get k s)) = deleteOnExit s"
  "timers (snd (LruCache_get k s)) = timers s"
  "disposables (snd (LruCache_get k s)) = disposables s"
  "pending (snd (LruCache_get k s)) = pending s"
  "materializations (snd (LruCache_get k s)) = materializations s"
  "logger (snd (LruCache_get k s)) = logger s"
  "maxEntries (cache (snd (LruCache_get k s))) = maxEntries (cache s)"
  by (simp_all add: LruCache_get_def Let_def split: option.splits)

lemma LruCache_get_map_of [simp]:
  "map_of (entries (cache (snd (LruCache_get k s)))) = map_of (entries (cache s))"
  by (auto simp: LruCache_get_def Let_def map_of_removeKey map_add_def fun_eq_iff split: option.splits)

lemma LruCache_get_miss:
  "map_of (entries (cache s)) k = None \<Longrightarrow> entries (cache (snd (LruCache_get k s))) = entries (cache s)"
  by (simp add: LruCache_get_def Let_def)

lemma LruCache_get_length:
  "length (entries (cache (snd (LruCache_get k s)))) \<le> length (entries (cache s))"
  using length_removeKey_present[of "entries (cache s)" k]
  by (auto simp: LruCache_get_def Let_def split: option.splits)

lemma cleanUp_resumes_resolves: "fst (cleanUp_resumes dir why s) = Inr ()"
  by (simp add: cleanUp_resumes_def Let_def split: sum.splits)

lemma cleanUp_resolves: "fst (cleanUp dir why s) = Inr ()"
  by (simp add: cleanUp_def cleanUp_resumes_resolves)

lemma cleanUp_resumes_fields [simp]:
  "cache (snd (cleanUp_resumes dir why s)) = cache s"
  "deleteOnExit (snd (cleanUp_resumes dir why s)) = deleteOnExit s"
  "timers (snd (cleanUp_resumes dir why s)) = timers s"
  "disposables (snd (cleanUp_resumes dir why s)) = disposables s"
  "pending (snd (cleanUp_resumes dir why s)) = pending s"
  "materializations (snd (cleanUp_resumes dir why s)) = materializations s"
  by (simp_all add: cleanUp_resumes_def logger_warn_def Let_def split: sum.splits)

lemma cleanUp_resumes_fs:
  "fs (snd (cleanUp_resumes dir why s)) = (case fs_remove (fs s) dir of Inr f \<Rightarrow> f | Inl e \<Rightarrow> fs s)"
  by (simp add: cleanUp_resumes_def logger_warn_def Let_def split: sum.splits)

lemma cleanUp_resumes_logger:
  "logger (snd (cleanUp_resumes dir why s)) =
     logger s @ Deleting dir why # (case fs_remove (fs s) dir of Inr f \<Rightarrow> [] | Inl e \<Rightarrow> [Warn e])"
  by (simp add: cleanUp_resumes_def logger_warn_def Let_def split: sum.splits)

lemma cleanUp_fs:
  "fs (snd (cleanUp dir why s)) =
     (if truthy dir \<and> pathExists (fs s) dir
      then (case fs_remove (fs s) dir of Inr f \<Rightarrow> f | Inl e \<Rightarrow> fs s) else fs s)"
  by (simp add: cleanUp_def cleanUp_begins_def cleanUp_resumes_fs)

lemma cleanUp_unawaited_fields [simp]:
  "fs (cleanUp_unawaited dir why s) = fs s"
  "cache (cleanUp_unawaited dir why s) = cache s"
  "deleteOnExit (cleanUp_unawaited dir why s) = deleteOnExit s"
  "timers (cleanUp_unawaited dir why s) = timers s"
  "disposables (cleanUp_unawaited dir why s) = disposables s"
  "logger (cleanUp_unawaited dir why s) = logger s"
  "materializations (cleanUp_unawaited dir why s) = materializations s"
  by (simp_all add: cleanUp_unawaited_def)

lemma cleanUp_unawaited_pending:
  "pending (cleanUp_unawaited dir why s) = pending s @ (if cleanUp_begins dir s then [(dir, why)] else [])"
  by (simp add: cleanUp_unawaited_def)

lemma cleanUp_begins_string: "cleanUp_begins dir s \<Longrightarrow> \<exists>d. dir = JStr d"
  by (cases dir) (simp_all add: cleanUp_begins_def pathExists_def fs_access_def)

lemma removeKey_absent: "map_of es k = None \<Longrightarrow> removeKey k es = es"
  by (induction es) (auto simp: removeKey_def split: if_splits)

lemma LruCache_evict_eq:
  "LruCache_evict evictionCallback k s =
     (case map_of (entries (cache s)) k of
        None \<Rightarrow> s
      | Some v \<Rightarrow>
          (cleanUp_unawaited (getProp v ''baseDir'') Eviction s)
            \<lparr>cache := (cache s)\<lparr>entries := removeKey k (entries (cache s))\<rparr>\<rparr>)"
  by (simp add: LruCache_evict_def evictionCallback_def Let_def split: option.splits)

lemma LruCache_evict_fields [simp]:
  "fs (LruCache_evict evictionCallback k s) = fs s"
  "deleteOnExit (LruCache_evict evictionCallback k s) = deleteOnExit s"
  "timers (LruCache_evict evictionCallback k s) = timers s"
  "disposables (LruCache_evict evictionCallback k s) = disposables s"
  "logger (LruCache_evict evictionCallback k s) = logger s"
  "materializations (LruCache_evict evictionCallback k s) = materializations s"
  "maxEntries (cache (LruCache_evict evictionCallback k s)) = maxEntries (cache s)"
  "entries (cache (LruCache_evict evictionCallback k s)) = removeKey k (entries (cache s))"
  by (simp_all add: LruCache_evict_eq removeKey_absent split: option.splits)

lemma LruCache_evict_pending:
  "pending (LruCache_evict evictionCallback k s) =
     (case map_of (entries (cache s)) k of
        None \<Rightarrow> pending s
      | Some v \<Rightarrow>
          pending s @ (if cleanUp_begins (getProp v ''baseDir'') s
                       then [(getProp v ''baseDir'', Eviction)] else []))"
  by (simp add: LruCache_evict_eq cleanUp_unawaited_pending split: option.splits)

lemma LruCache_put_fields [simp]:
  "fs (LruCache_put evictionCallback k v s) = fs s"
  "deleteOnExit (LruCache_put evictionCallback k v s) = deleteOnExit s"
  "timers (LruCache_put evictionCallback k v s) = timers s"
  "disposables (LruCache_put evictionCallback k v s) = disposables s"
  "logger (LruCache_put evictionCallback k v s) = logger s"
  "materializations (LruCache_put evictionCallback k v s) = materializations s"
  "maxEntries (cache (LruCache_put evictionCallback k v s)) = maxEntries (cache s)"
  by (simp_all add: LruCache_put_def Let_def split: option.splits list.splits)

lemma LruCache_put_map_of:
  "map_of (entries (cache (LruCache_put evictionCallback k v s))) k = Some v"
  by (auto simp: LruCache_put_def Let_def map_of_removeKey map_add_def split: option.splits list.splits)

lemma LruCache_put_room:
  assumes "map_of (entries (cache s)) k = None" and "length (entries (cache s)) < maxEntries (cache s)"
  shows "LruCache_put cb k v s = s\<lparr>cache := (cache s)\<lparr>entries := entries (cache s) @ [(k, v)]\<rparr>\<rparr>"
  using assms by (simp add: LruCache_put_def)

lemma LruCache_put_full:
  assumes "map_of (entries (cache s)) k = None" and "maxEntries (cache s) \<le> length (entries (cache s))"
    and "entries (cache s) = (k0, v0) # rest"
  shows "entries (cache (LruCache_put evictionCallback k v s)) = removeKey k0 rest @ [(k, v)]"
    and "pending (LruCache_put evictionCallback k v s) =
           pending s @ (if cleanUp_begins (getProp v0 ''baseDir'') s
                        then [(getProp v0 ''baseDir'', Eviction)] else [])"
  using assms by (simp_all add: LruCache_put_def LruCache_evict_pending removeKey_def Let_def)

lemma LruCache_put_pending:
  "pending (LruCache_put evictionCallback k v s) = pending s
   \<or> (\<exists>d. pending (LruCache_put evictionCallback k v s) = pending s @ [(JStr d, Eviction)])"
proof -
  have "pending (LruCache_evict evictionCallback k0 s) = pending s
      \<or> (\<exists>d. pending (LruCache_evict evictionCallback k0 s) = pending s @ [(JStr d, Eviction)])" for k0
    using cleanUp_begins_string[of _ s]
    by (auto simp: LruCache_evict_pending split: option.splits)
  then show ?thesis
    by (auto simp: LruCache_put_def Let_def split: option.splits list.splits)
qed

lemma LruCache_put_length:
  assumes "0 < maxEntries (cache s)" and "length (entries (cache s)) \<le> maxEntries (cache s)"
  shows "length (entries (cache (LruCache_put evictionCallback k v s))) \<le> maxEntries (cache s)"
proof (cases "map_of (entries (cache s)) k")
  case None
  show ?thesis
  proof (cases "entries (cache s)")
    case Nil
    with None assms show ?thesis by (simp add: LruCache_put_def)
  next
    case (Cons e rest)
    have "length (removeKey (fst e) (entries (cache s))) < length (entries (cache s))"
      using Cons length_removeKey_present[of "entries (cache s)" "fst e" "snd e"] by simp
    with None Cons assms show ?thesis
      by (simp add: LruCache_put_def Let_def)
  qed
next
  case (Some old)
  with assms length_removeKey_present[of "entries (cache s)" k old] show ?thesis
    by (simp add: LruCache_put_def)
qed

lemma resumeAll_resolves: "fst (resumeAll ts s) = Inr ()"
  by (induction ts arbitrary: s) (simp_all add: cleanUp_resumes_resolves case_prod_beta)

lemma resumeAll_fields [simp]:
  "cache (snd (resumeAll ts s)) = cache s"
  "deleteOnExit (snd (resumeAll ts s)) = deleteOnExit s"
  "timers (snd (resumeAll ts s)) = timers s"
  "disposables (snd (resumeAll ts s)) = disposables s"
  "pending (snd (resumeAll ts s)) = pending s"
  "materializations (snd (resumeAll ts s)) = materializations s"
  by (induction ts arbitrary: s) (simp_all add: case_prod_beta)

lemma settle_fields [simp]:
  "cache (settle s) = cache s"
  "deleteOnExit (settle s) = deleteOnExit s"
  "timers (settle s) = timers s"
  "disposables (settle s) = disposables s"
  "pending (settle s) = []"
  "materializations (settle s) = materializations s"
  by (simp_all add: settle_def)

lemma settle_idle: "pending s = [] \<Longrightarrow> settle s = s"
  by (cases s) (simp add: settle_def)

lemma settle_one:
  "pending s = [(dir, why)] \<Longrightarrow> fs (settle s) = fs (snd (cleanUp_resumes dir why s))"
  by (simp add: settle_def case_prod_beta cleanUp_resumes_fs split: sum.splits)

lemma cleanUp_resumes_logger_mono: "set (logger s) \<subseteq> set (logger (snd (cleanUp_resumes dir why s)))"
  by (simp add: cleanUp_resumes_logger subset_iff)

lemma resumeAll_logger_mono: "set (logger s) \<subseteq> set (logger (snd (resumeAll ts s)))"
proof (induction ts arbitrary: s)
  case Nil
  then show ?case by simp
next
  case (Cons t ts)
  from cleanUp_resumes_logger_mono[of s "fst t" "snd t"]
    Cons.IH[of "snd (cleanUp_resumes (fst t) (snd t) s)"]
  show ?case by (simp add: case_prod_beta subset_iff)
qed

lemma settle_logger_mono: "set (logger s) \<subseteq> set (logger (settle s))"
  using resumeAll_logger_mono[of "s\<lparr>pending := []\<rparr>" "pending s"] by (simp add: settle_def)

lemma cachedProjectIsValid_fs:
  "fs s' = fs s \<Longrightarrow> cachedProjectIsValid p params s' = cachedProjectIsValid p params s"
  by (simp add: cachedProjectIsValid_def)

lemma cachedProjectIsValid_resolves: "\<exists>valid. cachedProjectIsValid project params s = Inr valid"
  by (auto simp: cachedProjectIsValid_def split: sum.splits)

lemma save_fields [simp]:
  "cache (snd (save pl params s)) = cache s"
  "deleteOnExit (snd (save pl params s)) = deleteOnExit s"
  "timers (snd (save pl params s)) = timers s"
  "disposables (snd (save pl params s)) = disposables s"
  "pending (snd (save pl params s)) = pending s"
  "logger (snd (save pl params s)) = logger s"
  "materializations (snd (save pl params s)) = materializations s @ [params]"
  "fst (save pl params s) = fst (pl params (fs s))"
  "fs (snd (save pl params s)) = snd (pl params (fs s))"
  by (simp_all add: save_def split: prod.splits)

subsection \<open>The three ways through the cached path\<close>

lemma doWithProject_hit:
  assumes "readOnly params" and "shaExact (sha (idRef params))"
    and "map_of (entries (cache s)) (cacheKeyForSha (idRef params)) = Some p"
    and "cachedProjectIsValid p params s = Inr True"
  shows "doWithProject delegate params action s =
           (action p,
            logger_debug ''About to invoke action''
              (snd (LruCache_get (cacheKeyForSha (idRef params))
                     (logger_debug ''Attempting to reuse clone for readonly use'' s))))"
proof -
  let ?s0 = "logger_debug ''Attempting to reuse clone for readonly use'' s"
  let ?g = "LruCache_get (cacheKeyForSha (idRef params)) ?s0"
  have g: "fst ?g = Some p" using assms(3) by (simp add: LruCache_get_fst)
  have v: "cachedProjectIsValid p params (snd ?g) = Inr True"
    using assms(4) cachedProjectIsValid_fs[of "snd ?g" s p params] by simp
  show ?thesis
    using assms(1,2) g v by (simp add: doWithProject_def Let_def case_prod_beta)
qed

lemma doWithProject_miss:
  assumes "readOnly params" and "shaExact (sha (idRef params))"
    and "map_of (entries (cache s)) (cacheKeyForSha (idRef params)) = None"
  shows "doWithProject delegate params action s =
           (case save delegate params
                   (snd (LruCache_get (cacheKeyForSha (idRef params))
                          (logger_debug ''Attempting to reuse clone for readonly use'' s))) of
              (Inl e, s3) \<Rightarrow> (Inl e, settle s3)
            | (Inr p, s3) \<Rightarrow>
                (action p,
                 settle
                   (logger_debug ''About to invoke action''
                      (LruCache_put evictionCallback (cacheKeyForSha (idRef params))
                         (spread p (paramsProps params))
                         (logger_debug ''Caching project'' (settle s3))))))"
proof -
  let ?s0 = "logger_debug ''Attempting to reuse clone for readonly use'' s"
  let ?g = "LruCache_get (cacheKeyForSha (idRef params)) ?s0"
  have g: "fst ?g = None" using assms(3) by (simp add: LruCache_get_fst)
  show ?thesis
    using assms(1,2) g by (simp add: doWithProject_def Let_def case_prod_beta)
qed

lemma doWithProject_stale:
  assumes "readOnly params" and "shaExact (sha (idRef params))"
    and "map_of (entries (cache s)) (cacheKeyForSha (idRef params)) = Some old"
    and "cachedProjectIsValid old params s = Inr False"
  shows "doWithProject delegate params action s =
           (case save delegate params
                   (LruCache_evict evictionCallback (cacheKeyForSha (idRef params))
                      (logger_debug ''Evicting project from cache''
                         (snd (LruCache_get (cacheKeyForSha (idRef params))
                                (logger_debug ''Attempting to reuse clone for readonly use'' s))))) of
              (Inl e, s3) \<Rightarrow> (Inl e, settle s3)
            | (Inr p, s3) \<Rightarrow>
                (action p,
                 settle
                   (logger_debug ''About to invoke action''
                      (LruCache_put evictionCallback (cacheKeyForSha (idRef params))
                         (spread p (paramsProps params))
                         (logger_debug ''Caching project'' (settle s3))))))"
proof -
  let ?s0 = "logger_debug ''Attempting to reuse clone for readonly use'' s"
  let ?g = "LruCache_get (cacheKeyForSha (idRef params)) ?s0"
  have g: "fst ?g = Some old" using assms(3) by (simp add: LruCache_get_fst)
  have v: "cachedProjectIsValid old params (snd ?g) = Inr False"
    using assms(4) cachedProjectIsValid_fs[of "snd ?g" s old params] by simp
  show ?thesis
    using assms(1,2) g v by (simp add: doWithProject_def Let_def case_prod_beta)
qed

text \<open>
  The part that a miss and an eviction share: the delegate is asked, the reclamations in
  flight land, and the project is stored and handed to the action.
\<close>

lemma load_and_cache:
  fixes delegate :: ProjectLoader and params :: ProjectLoadingParameters
    and action :: "'r WithLoadedProject"
  defines "res \<equiv> (\<lambda>k s2. case save delegate params s2 of
              (Inl e, s3) \<Rightarrow> (Inl e, settle s3)
            | (Inr p, s3) \<Rightarrow>
                (action p,
                 settle
                   (logger_debug ''About to invoke action''
                      (LruCache_put evictionCallback k
                         (spread p (paramsProps params))
                         (logger_debug ''Caching project'' (settle s3))))))"
  shows "materializations (snd (res k s2)) = materializations s2 @ [params]"
    and "maxEntries (cache (snd (res k s2))) = maxEntries (cache s2)"
    and "pending (snd (res k s2)) = []"
    and "\<And>e f. delegate params (fs s2) = (Inl e, f) \<Longrightarrow>
           res k s2 = (Inl e, settle (s2\<lparr>fs := f, materializations := materializations s2 @ [params]\<rparr>))"
    and "\<And>p f. delegate params (fs s2) = (Inr p, f) \<Longrightarrow>
           res k s2 = (action p,
             settle
               (logger_debug ''About to invoke action''
                  (LruCache_put evictionCallback k (spread p (paramsProps params))
                     (logger_debug ''Caching project''
                        (settle (s2\<lparr>fs := f, materializations := materializations s2 @ [params]\<rparr>))))))"
    and "\<And>p f. delegate params (fs s2) = (Inr p, f) \<Longrightarrow>
           map_of (entries (cache (snd (res k s2)))) k = Some (spread p (paramsProps params))"
    and "\<And>e f. delegate params (fs s2) = (Inl e, f) \<Longrightarrow> cache (snd (res k s2)) = cache s2"
proof -
  obtain r f where d: "delegate params (fs s2) = (r, f)" by fastforce
  have sv: "save delegate params s2 = (r, s2\<lparr>fs := f, materializations := materializations s2 @ [params]\<rparr>)"
    using d by (simp add: save_def)
  show "materializations (snd (res k s2)) = materializations s2 @ [params]"
    unfolding res_def sv by (cases r) simp_all
  show "maxEntries (cache (snd (res k s2))) = maxEntries (cache s2)"
    unfolding res_def sv by (cases r) simp_all
  show "pending (snd (res k s2)) = []"
    unfolding res_def sv by (cases r) simp_all
  show "res k s2 = (Inl e, settle (s2\<lparr>fs := f, materializations := materializations s2 @ [params]\<rparr>))"
    if "delegate params (fs s2) = (Inl e, f)" for e f
    unfolding res_def using that by (simp add: save_def)
  show r: "res k s2 = (action p,
             settle
               (logger_debug ''About to invoke action''
                  (LruCache_put evictionCallback k (spread p (paramsProps params))
                     (logger_debug ''Caching project''
                        (settle (s2\<lparr>fs := f, materializations := materializations s2 @ [params]\<rparr>))))))"
    if "delegate params (fs s2) = (Inr p, f)" for p f
    unfolding res_def using that by (simp add: save_def)
  show "map_of (entries (cache (snd (res k s2)))) k = Some (spread p (paramsProps params))"
    if "delegate params (fs s2) = (Inr p, f)" for p f
    unfolding r[OF that] by (simp add: LruCache_put_map_of)
  show "cache (snd (res k s2)) = cache s2"
    if "delegate params (fs s2) = (Inl e, f)" for e f
    unfolding res_def using that by (simp add: save_def)
qed

subsection \<open>Outcomes and the log\<close>

lemma cleanUp_absent: "d \<notin> existing (fs s) \<Longrightarrow> cleanUp (JStr d) why s = (Inr (), s)"
  by (simp add: cleanUp_def cleanUp_begins_def pathExists_def fs_access_def)

lemma cleanUpAll_resolves: "fst (cleanUpAll ps s) = Inr ()"
  by (simp add: cleanUpAll_def resumeAll_resolves)

lemma shutdownHook_resolves: "fst (shutdownHook s) = Inr 0"
proof -
  have "cleanUpAll ps st \<noteq> (Inl e, st')" for ps st e st'
    using cleanUpAll_resolves[of ps st] by auto
  then show ?thesis
    by (simp add: shutdownHook_def Let_def split: prod.splits sum.splits)
qed

lemma cached_outcome:
  "fst (case save delegate params s2 of
          (Inl e, s3) \<Rightarrow> (Inl e, g s3)
        | (Inr p, s3) \<Rightarrow> (action p, h p s3))
     = (case fst (delegate params (fs s2)) of Inl e \<Rightarrow> Inl e | Inr p \<Rightarrow> action p)"
  by (simp add: save_def split: prod.splits sum.splits)

lemma doWithProject_error_origin:
  assumes "fst (doWithProject delegate params action s) = Inl e"
  shows "(\<exists>f. fst (delegate params f) = Inl e) \<or> (\<exists>p. action p = Inl e)"
proof (cases "readOnly params \<and> shaExact (sha (idRef params))")
  case False
  then have "fst (doWithProject delegate params action s) =
      (case fst (delegate params (fs s)) of Inl e \<Rightarrow> Inl e | Inr p \<Rightarrow> action p)"
    by (auto simp: doWithProject_def saveAndRunAction_def save_def Let_def split: prod.splits sum.splits)
  with assms show ?thesis by (auto split: sum.splits)
next
  case True
  let ?k = "cacheKeyForSha (idRef params)"
  have fresh: ?thesis
    if "fst (doWithProject delegate params action s) =
          (case fst (delegate params f) of Inl e \<Rightarrow> Inl e | Inr p \<Rightarrow> action p)" for f
    using that assms by (auto split: sum.splits)
  show ?thesis
  proof (cases "map_of (entries (cache s)) ?k")
    case None
    show ?thesis
      by (rule fresh) (simp only: doWithProject_miss[of params s delegate action, OF conjunct1[OF True] conjunct2[OF True] None] cached_outcome)
  next
    case (Some old)
    from cachedProjectIsValid_resolves[of old params s] obtain valid
      where v: "cachedProjectIsValid old params s = Inr valid" ..
    show ?thesis
    proof (cases valid)
      case True
      with doWithProject_hit[of params s old delegate action] \<open>readOnly params \<and> shaExact (sha (idRef params))\<close> Some v assms
      show ?thesis by auto
    next
      case False
      with v have v': "cachedProjectIsValid old params s = Inr False" by simp
      show ?thesis
        by (rule fresh) (simp only: doWithProject_stale[of params s old delegate action, OF conjunct1[OF True] conjunct2[OF True] Some v'] cached_outcome)
    qed
  qed
qed

lemma cleanUp_begins_cong: "fs s' = fs s \<Longrightarrow> cleanUp_begins dir s' = cleanUp_begins dir s"
  by (simp add: cleanUp_begins_def)

lemma stale_state:
  assumes "map_of (entries (cache s)) k = Some old"
  defines "s2 \<equiv> LruCache_evict evictionCallback k
                   (logger_debug ''Evicting project from cache''
                      (snd (LruCache_get k (logger_debug ''Attempting to reuse clone for readonly use'' s))))"
  shows "fs s2 = fs s"
    and "map_of (entries (cache s2)) k = None"
    and "materializations s2 = materializations s"
    and "logger s2 = logger s @ [Debug ''Attempting to reuse clone for readonly use'',
                                 Debug ''Evicting project from cache'']"
    and "pending s2 = pending s @ (if cleanUp_begins (getProp old ''baseDir'') s
                                   then [(getProp old ''baseDir'', Eviction)] else [])"
    and "maxEntries (cache s2) = maxEntries (cache s)"
    and "length (entries (cache s2)) < length (entries (cache s))"
proof -
  let ?s1 = "logger_debug ''Evicting project from cache''
               (snd (LruCache_get k (logger_debug ''Attempting to reuse clone for readonly use'' s)))"
  have m: "map_of (entries (cache ?s1)) k = Some old" using assms(1) by simp
  have f: "fs ?s1 = fs s" by simp
  show "fs s2 = fs s" unfolding s2_def by simp
  show "map_of (entries (cache s2)) k = None"
    unfolding s2_def by (simp add: map_of_removeKey)
  show "materializations s2 = materializations s"
    unfolding s2_def by simp
  show "logger s2 = logger s @ [Debug ''Attempting to reuse clone for readonly use'',
                                Debug ''Evicting project from cache'']"
    unfolding s2_def by simp
  show "pending s2 = pending s @ (if cleanUp_begins (getProp old ''baseDir'') s
                                  then [(getProp old ''baseDir'', Eviction)] else [])"
    unfolding s2_def using m cleanUp_begins_cong[OF f, of "getProp old ''baseDir''"]
    by (simp add: LruCache_evict_pending)
  show "maxEntries (cache s2) = maxEntries (cache s)"
    unfolding s2_def by simp
  have "length (removeKey k (entries (cache ?s1))) < length (entries (cache ?s1))"
    using m by (rule length_removeKey_present)
  moreover have "length (entries (cache ?s1)) \<le> length (entries (cache s))"
    using LruCache_get_length[of k "logger_debug ''Attempting to reuse clone for readonly use'' s"] by simp
  ultimately show "length (entries (cache s2)) < length (entries (cache s))"
    unfolding s2_def by simp
qed

lemma save_result:
  "delegate params (fs s) = (r, f) \<Longrightarrow>
     save delegate params s = (r, s\<lparr>fs := f, materializations := materializations s @ [params]\<rparr>)"
  by (simp add: save_def)

lemma paramsProps_lookup:
  "fmlookup (paramsProps q) ''baseDir'' = None"
  "fmlookup (paramsProps q) ''id'' = Some (JRef (idRef q))"
  "fmlookup (paramsProps q) ''readOnly'' = Some (JBool (readOnly q))"
  "fmlookup (paramsProps q) ''cloneOptions'' = cloneOptions q"
  "fmlookup (paramsProps q) ''context'' = map_option JCtx (contextOpt q)"
  by (simp_all add: paramsProps_def fmlookup_of_list split: option.splits)

lemma first_request_entry:
  assumes ro: "readOnly p1" and ex: "shaExact (sha (idRef p1))"
    and run: "doWithProject delegate p1 a1 s0 = (r1, s1)"
    and stored: "map_of (entries (cache s1)) (cacheKeyForSha (idRef p1)) = Some e"
  shows "(materializations s1 = materializations s0 \<and> r1 = a1 e)
       \<or> (materializations s1 = materializations s0 @ [p1]
            \<and> (\<exists>p. r1 = a1 p \<and> e = spread p (paramsProps p1)))"
proof -
  let ?k = "cacheKeyForSha (idRef p1)"
  let ?s1 = "snd (LruCache_get ?k (logger_debug ''Attempting to reuse clone for readonly use'' s0))"
  have fresh: ?thesis
    if m: "map_of (entries (cache s2)) ?k = None"
      and r: "doWithProject delegate p1 a1 s0 = (case save delegate p1 s2 of
              (Inl e, s3) \<Rightarrow> (Inl e, settle s3)
            | (Inr p, s3) \<Rightarrow>
                (a1 p,
                 settle
                   (logger_debug ''About to invoke action''
                      (LruCache_put evictionCallback ?k
                         (spread p (paramsProps p1))
                         (logger_debug ''Caching project'' (settle s3))))))"
      and ms: "materializations s2 = materializations s0"
    for s2
  proof -
    let ?res = "case save delegate p1 s2 of
              (Inl e, s3) \<Rightarrow> (Inl e, settle s3)
            | (Inr p, s3) \<Rightarrow>
                (a1 p,
                 settle
                   (logger_debug ''About to invoke action''
                      (LruCache_put evictionCallback ?k
                         (spread p (paramsProps p1))
                         (logger_debug ''Caching project'' (settle s3)))))"
    note lc = load_and_cache[where delegate = delegate and params = p1 and action = a1
        and k = ?k and ?s2.0 = s2]
    from r run have "?res = (r1, s1)" by simp
    then have fs: "fst ?res = r1" "snd ?res = s1" by simp_all
    obtain r f where d: "delegate p1 (fs s2) = (r, f)" by fastforce
    show ?thesis
    proof (cases r)
      case (Inl err)
      with lc(7)[of err f] d have "cache s1 = cache s2" unfolding fs by simp
      with stored m show ?thesis by simp
    next
      case (Inr p)
      with lc(5)[of p f] d have "fst ?res = a1 p" by simp
      moreover from Inr lc(6)[of p f] d have "map_of (entries (cache (snd ?res))) ?k = Some (spread p (paramsProps p1))"
        by simp
      ultimately show ?thesis using lc(1) stored ms unfolding fs by auto
    qed
  qed
  show ?thesis
  proof (cases "map_of (entries (cache s0)) ?k")
    case None
    have "map_of (entries (cache ?s1)) ?k = None" using None by simp
    from fresh[OF this doWithProject_miss[OF ro ex None]] show ?thesis by simp
  next
    case (Some old)
    from cachedProjectIsValid_resolves[of old p1 s0] obtain valid
      where v: "cachedProjectIsValid old p1 s0 = Inr valid" ..
    show ?thesis
    proof (cases valid)
      case True
      with doWithProject_hit[OF ro ex Some, of delegate a1] v run stored Some
      show ?thesis by auto
    next
      case False
      with v have v': "cachedProjectIsValid old p1 s0 = Inr False" by simp
      note st = stale_state[OF Some]
      from fresh[OF st(2) doWithProject_stale[OF ro ex Some v'] st(3)] show ?thesis .
    qed
  qed
qed

lemma getProp_spread:
  "getProp (spread p ps) k =
     (case fmlookup ps k of
        Some v \<Rightarrow> v
      | None \<Rightarrow> (case fmlookup (own p) k of Some v \<Rightarrow> v | None \<Rightarrow> JUndefined))"
  by (auto simp: getProp_def spread_def fmlookup_dom_iff split: option.splits)

lemma fs_access_string: "fs_access f v = Inr () \<Longrightarrow> \<exists>d. v = JStr d"
  by (cases v) (simp_all add: fs_access_def)

lemma spread_baseDir:
  assumes "fs_access f (getProp (spread p (paramsProps q)) ''baseDir'') = Inr ()"
  shows "getProp p ''baseDir'' = getProp (spread p (paramsProps q)) ''baseDir''"
proof -
  from fs_access_string[OF assms] obtain d
    where d: "getProp (spread p (paramsProps q)) ''baseDir'' = JStr d" by blast
  then have "fmlookup (own p) ''baseDir'' = Some (JStr d)"
    by (simp add: getProp_spread paramsProps_lookup split: option.splits)
  with d show ?thesis by (simp add: getProp_def)
qed

text \<open>What a call leaves in the log.\<close>

lemma load_and_cache_logger_mono:
  "set (logger s2) \<subseteq> set (logger (snd (case save delegate params s2 of
              (Inl e, s3) \<Rightarrow> (Inl e, settle s3)
            | (Inr p, s3) \<Rightarrow>
                (action p,
                 settle
                   (logger_debug ''About to invoke action''
                      (LruCache_put evictionCallback k
                         (spread p (paramsProps params))
                         (logger_debug ''Caching project'' (settle s3))))))))"
proof -
  obtain r f where d: "delegate params (fs s2) = (r, f)" by fastforce
  let ?s3 = "s2\<lparr>fs := f, materializations := materializations s2 @ [params]\<rparr>"
  have sv: "save delegate params s2 = (r, ?s3)" using d by (simp add: save_def)
  have 1: "set (logger s2) \<subseteq> set (logger (settle ?s3))"
    using settle_logger_mono[of ?s3] by simp
  show ?thesis
  proof (cases r)
    case (Inl e)
    with sv 1 show ?thesis by simp
  next
    case (Inr p)
    let ?s7 = "logger_debug ''About to invoke action''
                 (LruCache_put evictionCallback k (spread p (paramsProps params))
                    (logger_debug ''Caching project'' (settle ?s3)))"
    have "set (logger (settle ?s3)) \<subseteq> set (logger ?s7)" by (simp add: subset_iff)
    with 1 settle_logger_mono[of ?s7] have "set (logger s2) \<subseteq> set (logger (settle ?s7))"
      by blast
    with Inr sv show ?thesis by simp
  qed
qed

lemma stale_entry_logged:
  assumes "readOnly params" and "shaExact (sha (idRef params))"
    and "map_of (entries (cache s)) (cacheKeyForSha (idRef params)) = Some old"
    and "cachedProjectIsValid old params s = Inr False"
  shows "Debug ''Evicting project from cache'' \<in> set (logger (snd (doWithProject delegate params action s)))"
proof -
  let ?k = "cacheKeyForSha (idRef params)"
  let ?s2 = "LruCache_evict evictionCallback ?k
               (logger_debug ''Evicting project from cache''
                  (snd (LruCache_get ?k (logger_debug ''Attempting to reuse clone for readonly use'' s))))"
  note st = stale_state[OF assms(3)]
  have "Debug ''Evicting project from cache'' \<in> set (logger ?s2)"
    unfolding st(4) by simp
  with load_and_cache_logger_mono[where delegate = delegate and params = params and action = action
      and k = ?k and ?s2.0 = ?s2]
  show ?thesis
    unfolding doWithProject_stale[OF assms, of delegate action] by blast
qed

lemma cleanUp_resumes_warns:
  assumes "Warn e \<in> set (logger (snd (cleanUp_resumes (JStr d) why s)))"
  shows "Warn e \<in> set (logger s) \<or> e = EPERM d"
  using assms by (auto simp: cleanUp_resumes_logger fs_remove_def split: sum.splits if_splits)

lemma resumeAll_warns:
  assumes "\<forall>t\<in>set ts. \<exists>d. fst t = JStr d"
    and "Warn e \<in> set (logger (snd (resumeAll ts s)))"
  shows "Warn e \<in> set (logger s) \<or> (\<exists>d. e = EPERM d)"
  using assms
proof (induction ts arbitrary: s)
  case Nil
  then show ?case by simp
next
  case (Cons t ts)
  from Cons.prems(1) obtain d where d: "fst t = JStr d" by auto
  let ?s1 = "snd (cleanUp_resumes (fst t) (snd t) s)"
  from Cons.prems(2) have "Warn e \<in> set (logger (snd (resumeAll ts ?s1)))"
    by (simp add: case_prod_beta)
  with Cons.IH[of ?s1] Cons.prems(1)
  have "Warn e \<in> set (logger ?s1) \<or> (\<exists>d. e = EPERM d)" by simp
  with cleanUp_resumes_warns[of e d "snd t" s] d show ?case by auto
qed

lemma settle_warns:
  assumes "\<forall>t\<in>set (pending s). \<exists>d. fst t = JStr d"
    and "Warn e \<in> set (logger (settle s))"
  shows "Warn e \<in> set (logger s) \<or> (\<exists>d. e = EPERM d)"
  using resumeAll_warns[of "pending s" e "s\<lparr>pending := []\<rparr>"] assms by (simp add: settle_def)

lemma load_and_cache_warns:
  assumes strs: "\<forall>t\<in>set (pending s2). \<exists>d. fst t = JStr d"
    and w: "Warn e \<in> set (logger (snd (case save delegate params s2 of
              (Inl e, s3) \<Rightarrow> (Inl e, settle s3)
            | (Inr p, s3) \<Rightarrow>
                (action p,
                 settle
                   (logger_debug ''About to invoke action''
                      (LruCache_put evictionCallback k
                         (spread p (paramsProps params))
                         (logger_debug ''Caching project'' (settle s3))))))))"
  shows "Warn e \<in> set (logger s2) \<or> (\<exists>d. e = EPERM d)"
proof -
  obtain r f where d: "delegate params (fs s2) = (r, f)" by fastforce
  let ?s3 = "s2\<lparr>fs := f, materializations := materializations s2 @ [params]\<rparr>"
  have sv: "save delegate params s2 = (r, ?s3)" using d by (simp add: save_def)
  have first: "Warn e \<in> set (logger s2) \<or> (\<exists>d. e = EPERM d)" if "Warn e \<in> set (logger (settle ?s3))"
    using settle_warns[of ?s3 e] strs that by simp
  show ?thesis
  proof (cases r)
    case (Inl err)
    with w sv first show ?thesis by simp
  next
    case (Inr p)
    let ?s5 = "logger_debug ''Caching project'' (settle ?s3)"
    let ?s6 = "LruCache_put evictionCallback k (spread p (paramsProps params)) ?s5"
    let ?s7 = "logger_debug ''About to invoke action'' ?s6"
    have p7: "\<forall>t\<in>set (pending ?s7). \<exists>d. fst t = JStr d"
      using LruCache_put_pending[of k "spread p (paramsProps params)" ?s5] by auto
    from w Inr sv have "Warn e \<in> set (logger (settle ?s7))" by simp
    with settle_warns[OF p7, of e] have "Warn e \<in> set (logger ?s7) \<or> (\<exists>d. e = EPERM d)" by blast
    then have "Warn e \<in> set (logger (settle ?s3)) \<or> (\<exists>d. e = EPERM d)" by simp
    with first show ?thesis by blast
  qed
qed

lemma saveAndRunAction_logger: "logger (snd (saveAndRunAction delegate params action s)) = logger s"
  by (simp add: saveAndRunAction_def save_def split: prod.splits sum.splits option.splits)

lemma doWithProject_warns:
  assumes idle: "pending s = []"
    and w: "Warn e \<in> set (logger (snd (doWithProject delegate params action s)))"
  shows "Warn e \<in> set (logger s) \<or> (\<exists>d. e = EPERM d)"
proof (cases "readOnly params \<and> shaExact (sha (idRef params))")
  case False
  then have "logger (snd (doWithProject delegate params action s)) = logger s @ [Debug ''Forcing fresh clone for non readonly use'']
      \<or> logger (snd (doWithProject delegate params action s)) = logger s @ [Debug ''Forcing fresh clone for branch use'']"
    by (auto simp: doWithProject_def saveAndRunAction_logger)
  with w show ?thesis by auto
next
  case True
  then have ro: "readOnly params" and ex: "shaExact (sha (idRef params))" by simp_all
  let ?k = "cacheKeyForSha (idRef params)"
  let ?s1 = "snd (LruCache_get ?k (logger_debug ''Attempting to reuse clone for readonly use'' s))"
  show ?thesis
  proof (cases "map_of (entries (cache s)) ?k")
    case None
    have p: "\<forall>t\<in>set (pending ?s1). \<exists>d. fst t = JStr d" using idle by simp
    from w load_and_cache_warns[where delegate = delegate and params = params and action = action
        and k = ?k and e = e, OF p]
    have "Warn e \<in> set (logger ?s1) \<or> (\<exists>d. e = EPERM d)"
      unfolding doWithProject_miss[OF ro ex None, of delegate action] by blast
    then show ?thesis by simp
  next
    case (Some old)
    from cachedProjectIsValid_resolves[of old params s] obtain valid
      where v: "cachedProjectIsValid old params s = Inr valid" ..
    show ?thesis
    proof (cases valid)
      case True
      with doWithProject_hit[OF ro ex Some, of delegate action] v w
      show ?thesis by simp
    next
      case False
      with v have v': "cachedProjectIsValid old params s = Inr False" by simp
      let ?s2 = "LruCache_evict evictionCallback ?k (logger_debug ''Evicting project from cache'' ?s1)"
      note st = stale_state[OF Some]
      have p: "\<forall>t\<in>set (pending ?s2). \<exists>d. fst t = JStr d"
        unfolding st(5) using idle cleanUp_begins_string[of "getProp old ''baseDir''" s] by auto
      from w load_and_cache_warns[where delegate = delegate and params = params and action = action
        and k = ?k and e = e, OF p]
      have "Warn e \<in> set (logger ?s2) \<or> (\<exists>d. e = EPERM d)"
        unfolding doWithProject_stale[OF ro ex Some v', of delegate action] by blast
      then show ?thesis unfolding st(4) by simp
    qed
  qed
qed

lemma fs_access_not_EPERM: "fs_access f v = Inl e \<Longrightarrow> e \<noteq> EPERM d"
  by (cases v) (auto simp: fs_access_def split: if_splits)

lemma LruCache_evict_failed_callback:
  assumes "map_of (entries (cache s)) k = Some v" and "cb v s = (Inl e, s1)"
  shows "logger (LruCache_evict cb k s) = logger s1 @ [Warn e]"
  using assms by (simp add: LruCache_evict_def logger_warn_def Let_def)

lemma cleanUp_failed_removal:
  assumes "truthy dir" and "pathExists (fs s) dir" and "fs_remove (fs s) dir = Inl err"
  shows "cleanUp dir why s = (Inr (), s\<lparr>logger := logger s @ [Deleting dir why, Warn err]\<rparr>)"
  using assms by (simp add: cleanUp_def cleanUp_begins_def cleanUp_resumes_def logger_warn_def Let_def)

subsection \<open>The sample inputs\<close>

lemma exRequest_facts:
  "readOnly exRequest" "shaExact (sha (idRef exRequest))" "idRef exRequest = exRef"
  by (simp_all add: exRequest_def exRef_def exSha_def shaExact_def list_all_iff)

lemma exCached_entry: "map_of (entries (cache exCached)) (cacheKeyForSha exRef) = Some exEntry"
  unfolding exCached_def exEntry_def  by code_simp

lemma exProject_baseDir: "getProp (exProject r) ''baseDir'' = JStr (exDir r)"
  by (simp add: getProp_def exProject_def)

lemma exDelegate_fresh:
  "exDelegate params (fs (newCachingProjectLoader n exStorage)) =
     (Inr (exProject (idRef params)), exStorage\<lparr>existing := insert (exDir (idRef params)) (existing exStorage)\<rparr>)"
  by (simp add: exDelegate_def newCachingProjectLoader_def)

lemma exBranchRequest_not_exact: "\<not> shaExact (sha (idRef exBranchRequest))"
  by (simp add: shaExact_def exBranchRequest_def exRequest_def exRef_def)

lemma exDir_branch: "exDir (idRef exBranchRequest) = ''/tmp/r-main''"
  by (simp add: exDir_def exBranchRequest_def exRequest_def exRef_def)

lemma exFailingDelegate_result: "exFailingDelegate params f = (Inl (Failure ''clone failed''), f)"
  by (simp add: exFailingDelegate_def)

lemma exWriteRequest_facts:
  "\<not> readOnly exWriteRequest" "paramsLifecycle exWriteRequest = Some 7" "idRef exWriteRequest = exRef"
  by (simp_all add: exWriteRequest_def exRequest_def paramsLifecycle_def)

lemma exEntry_props:
  "getProp exEntry ''baseDir'' = JStr (exDir exRef)"
  "getProp exEntry ''cloneOptions'' = JUndefined"
  by (simp_all add: exEntry_def getProp_spread paramsProps_lookup exProject_def exRequest_def)

lemma exStale_facts:
  "map_of (entries (cache exStale)) (cacheKeyForSha (idRef exRequest)) = Some exEntry"
  "cachedProjectIsValid exEntry exRequest exStale = Inr False"
  "fs exStale = exStorage"
  "pending exStale = []"
proof -
  show "map_of (entries (cache exStale)) (cacheKeyForSha (idRef exRequest)) = Some exEntry"
    using exCached_entry by (simp add: exStale_def exRequest_facts)
  show "cachedProjectIsValid exEntry exRequest exStale = Inr False"
    by (simp add: cachedProjectIsValid_def exEntry_props exStale_def exStorage_def fs_access_def)
  show "fs exStale = exStorage"
    by (simp add: exStale_def)
  have "pending exCached = []"
    unfolding exCached_def by code_simp
  then show "pending exStale = []"
    by (simp add: exStale_def)
qed

lemma exCached_facts:
  "fs exCached = exStorage\<lparr>existing := {exDir exRef}\<rparr>"
  "materializations exCached = [exRequest]"
  "fs_access (fs exCached) (getProp exEntry ''baseDir'') = Inr ()"
proof -
  show f: "fs exCached = exStorage\<lparr>existing := {exDir exRef}\<rparr>"
    unfolding exCached_def by code_simp
  show "materializations exCached = [exRequest]"
    unfolding exCached_def by code_simp
  show "fs_access (fs exCached) (getProp exEntry ''baseDir'') = Inr ()"
    by (simp add: exEntry_props f fs_access_def exStorage_def exDir_def)
qed



subsection \<open>The bypass path\<close>

text \<open>
  Claim C2. A request that is not read-only, and likewise a request whose revision is not
  an exact commit hash, takes the bypass path: the delegate is asked for a fresh checkout
  (one more materialization, of this request), the cache store is left exactly as it was,
  and when the delegate delivers a project the action runs on it and its outcome is the
  outcome of the call, with the checkout's directory registered either as a disposal of
  the request's lifecycle handle or as a timer together with the pending-deletion list.
  When the delegate rejects, so does the call.
\<close>

theorem bypass_path:
  assumes "\<not> readOnly params \<or> \<not> shaExact (sha (idRef params))"
  shows "cache (snd (doWithProject delegate params action s)) = cache s
       \<and> materializations (snd (doWithProject delegate params action s)) = materializations s @ [params]
       \<and> (\<forall>e f. delegate params (fs s) = (Inl e, f) \<longrightarrow>
            fst (doWithProject delegate params action s) = Inl e)
       \<and> (\<forall>p f. delegate params (fs s) = (Inr p, f) \<longrightarrow>
            fst (doWithProject delegate params action s) = action p
          \<and> (case paramsLifecycle params of
               Some h \<Rightarrow>
                 (h, getProp p ''baseDir'')
                   \<in> set (disposables (snd (doWithProject delegate params action s)))
             | None \<Rightarrow>
                 \<lparr>timerDir = getProp p ''baseDir'', delay = 10000, unref = True\<rparr>
                   \<in> set (timers (snd (doWithProject delegate params action s)))
               \<and> getProp p ''baseDir''
                   \<in> set (deleteOnExit (snd (doWithProject delegate params action s)))))"
  using assms
  by (auto simp: doWithProject_def saveAndRunAction_def save_def logger_debug_def Let_def
      split: prod.splits sum.splits option.splits)

theorem bypass_path_witness:
  "\<not> shaExact (sha (idRef exBranchRequest))
   \<and> cache (snd (doWithProject exDelegate exBranchRequest exAction (newCachingProjectLoader None exStorage)))
       = cache (newCachingProjectLoader None exStorage)
   \<and> materializations (snd (doWithProject exDelegate exBranchRequest exAction (newCachingProjectLoader None exStorage)))
       = [exBranchRequest]
   \<and> fst (doWithProject exDelegate exBranchRequest exAction (newCachingProjectLoader None exStorage))
       = Inr (JStr ''/tmp/r-main'')
   \<and> JStr ''/tmp/r-main''
       \<in> set (deleteOnExit
                (snd (doWithProject exDelegate exBranchRequest exAction
                       (newCachingProjectLoader None exStorage))))
   \<and> \<not> readOnly exWriteRequest
   \<and> (7, JStr (exDir exRef))
       \<in> set (disposables
                (snd (doWithProject exDelegate exWriteRequest exAction
                       (newCachingProjectLoader None exStorage))))
   \<and> fst (doWithProject exFailingDelegate exWriteRequest exAction (newCachingProjectLoader None exStorage))
       = Inl (Failure ''clone failed'')"
proof -
  let ?s0 = "newCachingProjectLoader None exStorage"
  have l: "paramsLifecycle exBranchRequest = None"
    by (simp add: paramsLifecycle_def exBranchRequest_def exRequest_def)
  have m: "materializations ?s0 = []" by (simp add: newCachingProjectLoader_def)
  from bypass_path[of exBranchRequest exDelegate exAction ?s0]
    exBranchRequest_not_exact exDelegate_fresh[of exBranchRequest None] l exDir_branch m
  have 1: "cache (snd (doWithProject exDelegate exBranchRequest exAction ?s0)) = cache ?s0
   \<and> materializations (snd (doWithProject exDelegate exBranchRequest exAction ?s0)) = [exBranchRequest]
   \<and> fst (doWithProject exDelegate exBranchRequest exAction ?s0) = Inr (JStr ''/tmp/r-main'')
   \<and> JStr ''/tmp/r-main'' \<in> set (deleteOnExit (snd (doWithProject exDelegate exBranchRequest exAction ?s0)))"
    by (simp add: exProject_baseDir exAction_def)
  from bypass_path[of exWriteRequest exDelegate exAction ?s0]
    exWriteRequest_facts exDelegate_fresh[of exWriteRequest None]
  have 2: "(7, JStr (exDir exRef))
       \<in> set (disposables (snd (doWithProject exDelegate exWriteRequest exAction ?s0)))"
    by (simp add: exProject_baseDir)
  from bypass_path[of exWriteRequest exFailingDelegate exAction ?s0]
    exWriteRequest_facts(1) exFailingDelegate_result[of exWriteRequest "fs ?s0"]
  have 3: "fst (doWithProject exFailingDelegate exWriteRequest exAction ?s0) = Inl (Failure ''clone failed'')"
    by blast
  from 1 2 3 exBranchRequest_not_exact exWriteRequest_facts(1) show ?thesis by blast
qed

text \<open>
  Claim C6. On the bypass path, once the delegate has delivered the project: a request
  that carries a lifecycle handle registers one disposal of the checkout's directory with
  that handle, and sets no timer and lists nothing; a request without one sets one timer of
  10000 ms, unreferenced so that it holds nothing up, and appends the directory to the
  pending-deletion list, and registers no disposal. The action runs at once in both
  cases. The disposal and the timer, when they run, are the reclamation of that directory.
\<close>

theorem bypass_registration:
  assumes "\<not> readOnly params \<or> \<not> shaExact (sha (idRef params))"
    and "delegate params (fs s) = (Inr p, f)"
  shows "fst (doWithProject delegate params action s) = action p
       \<and> (case paramsLifecycle params of
            Some h \<Rightarrow>
              disposables (snd (doWithProject delegate params action s))
                = disposables s @ [(h, getProp p ''baseDir'')]
            \<and> timers (snd (doWithProject delegate params action s)) = timers s
            \<and> deleteOnExit (snd (doWithProject delegate params action s)) = deleteOnExit s
            \<and> disposalRuns (h, getProp p ''baseDir'') st = cleanUp (getProp p ''baseDir'') Disposal st
          | None \<Rightarrow>
              timers (snd (doWithProject delegate params action s))
                = timers s @ [\<lparr>timerDir = getProp p ''baseDir'', delay = 10000, unref = True\<rparr>]
            \<and> deleteOnExit (snd (doWithProject delegate params action s))
                = deleteOnExit s @ [getProp p ''baseDir'']
            \<and> disposables (snd (doWithProject delegate params action s)) = disposables s
            \<and> timerFires \<lparr>timerDir = getProp p ''baseDir'', delay = 10000, unref = True\<rparr> st
                = cleanUp (getProp p ''baseDir'') Timeout st)"
  using assms
  by (auto simp: doWithProject_def saveAndRunAction_def save_def logger_debug_def Let_def
        disposalRuns_def timerFires_def
      split: prod.splits sum.splits option.splits)

theorem bypass_registration_witness:
  "\<not> readOnly exWriteRequest
   \<and> disposables (snd (doWithProject exDelegate exWriteRequest exAction (newCachingProjectLoader None exStorage)))
       = [(7, JStr (exDir exRef))]
   \<and> timers (snd (doWithProject exDelegate exWriteRequest exAction (newCachingProjectLoader None exStorage)))
       = []
   \<and> \<not> shaExact (sha (idRef exBranchRequest))
   \<and> timers (snd (doWithProject exDelegate exBranchRequest exAction (newCachingProjectLoader None exStorage)))
       = [\<lparr>timerDir = JStr ''/tmp/r-main'', delay = 10000, unref = True\<rparr>]
   \<and> deleteOnExit (snd (doWithProject exDelegate exBranchRequest exAction (newCachingProjectLoader None exStorage)))
       = [JStr ''/tmp/r-main'']"
proof -
  have w: "\<not> readOnly exWriteRequest"
    by (simp add: exWriteRequest_def)
  have lw: "paramsLifecycle exWriteRequest = Some 7"
    by (simp add: paramsLifecycle_def exWriteRequest_def)
  have iw: "idRef exWriteRequest = exRef"
    by (simp add: exWriteRequest_def exRequest_def)
  have lb: "paramsLifecycle exBranchRequest = None"
    by (simp add: paramsLifecycle_def exBranchRequest_def exRequest_def)
  have n: "disposables (newCachingProjectLoader None exStorage) = []"
    "timers (newCachingProjectLoader None exStorage) = []"
    "deleteOnExit (newCachingProjectLoader None exStorage) = []"
    by (simp_all add: newCachingProjectLoader_def)
  from bypass_registration[of exWriteRequest exDelegate "newCachingProjectLoader None exStorage"
      _ _ exAction, OF _ exDelegate_fresh] w lw iw n
  have 1: "disposables (snd (doWithProject exDelegate exWriteRequest exAction (newCachingProjectLoader None exStorage)))
       = [(7, JStr (exDir exRef))]
     \<and> timers (snd (doWithProject exDelegate exWriteRequest exAction (newCachingProjectLoader None exStorage)))
       = []"
    by (simp add: exProject_baseDir)
  from bypass_registration[of exBranchRequest exDelegate "newCachingProjectLoader None exStorage"
      _ _ exAction, OF _ exDelegate_fresh] exBranchRequest_not_exact lb n exDir_branch
  have 2: "timers (snd (doWithProject exDelegate exBranchRequest exAction (newCachingProjectLoader None exStorage)))
       = [\<lparr>timerDir = JStr ''/tmp/r-main'', delay = 10000, unref = True\<rparr>]
     \<and> deleteOnExit (snd (doWithProject exDelegate exBranchRequest exAction (newCachingProjectLoader None exStorage)))
       = [JStr ''/tmp/r-main'']"
    by (simp add: exProject_baseDir)
  from 1 2 w exBranchRequest_not_exact show ?thesis by simp
qed

subsection \<open>The validity check\<close>

text \<open>
  Claim C3. The validity check always resolves, and to true exactly when the clone options
  stored with the entry are deep-value-equal to those of the request and the access to
  the entry's directory succeeds, that is when the directory is a non-empty path that
  exists and is not refused. A failing access gives false, never a rejection.
\<close>

theorem cachedProjectIsValid_iff:
  "cachedProjectIsValid project params s =
     Inr (isEqual (getProp project ''cloneOptions'') (paramsCloneOptions params)
          \<and> fs_access (fs s) (getProp project ''baseDir'') = Inr ())
   \<and> (isEqual (getProp project ''cloneOptions'') (paramsCloneOptions params)
        = (getProp project ''cloneOptions'' = paramsCloneOptions params))
   \<and> ((fs_access (fs s) (getProp project ''baseDir'') = Inr ())
        = (\<exists>d. getProp project ''baseDir'' = JStr d \<and> d \<noteq> []
                \<and> d \<in> existing (fs s) \<and> d \<notin> unreadable (fs s)))
   \<and> (\<forall>e. fs_access (fs s) (getProp project ''baseDir'') = Inl e \<longrightarrow>
          cachedProjectIsValid project params s = Inr False)"
proof -
  have check: "cachedProjectIsValid project params s =
     Inr (isEqual (getProp project ''cloneOptions'') (paramsCloneOptions params)
          \<and> fs_access (fs s) (getProp project ''baseDir'') = Inr ())"
    by (simp add: cachedProjectIsValid_def split: sum.splits)
  have access: "(fs_access (fs s) v = Inr ())
        = (\<exists>d. v = JStr d \<and> d \<noteq> [] \<and> d \<in> existing (fs s) \<and> d \<notin> unreadable (fs s))" for v
    by (cases v) (simp_all add: fs_access_def)
  have failing: "cachedProjectIsValid project params s = Inr False"
    if "fs_access (fs s) (getProp project ''baseDir'') = Inl e" for e
    using that by (simp add: cachedProjectIsValid_def)
  have equal: "isEqual (getProp project ''cloneOptions'') (paramsCloneOptions params)
        = (getProp project ''cloneOptions'' = paramsCloneOptions params)"
    by (simp add: isEqual_def)
  from check equal access[of "getProp project ''baseDir''"] failing show ?thesis by blast
qed

theorem cachedProjectIsValid_iff_witness:
  "fs_access (fs exStale) (getProp exEntry ''baseDir'') = Inl (ENOENT (exDir exRef))
   \<and> cachedProjectIsValid exEntry exRequest exStale = Inr False
   \<and> cachedProjectIsValid exEntry exRequest exCached = Inr True
   \<and> cachedProjectIsValid exEntry exDeepRequest exCached = Inr False
   \<and> isEqual (JObj (fmap_of_list [(''depth'', JNum 1), (''keep'', JBool True)]))
              (JObj (fmap_of_list [(''keep'', JBool True), (''depth'', JNum 1)]))"
proof -
  have b: "getProp exEntry ''baseDir'' = JStr (exDir exRef)"
    by (simp add: exEntry_def getProp_spread paramsProps_lookup exProject_def)
  have c: "getProp exEntry ''cloneOptions'' = JUndefined"
    by (simp add: exEntry_def getProp_spread paramsProps_lookup exProject_def exRequest_def)
  have o: "paramsCloneOptions exRequest = JUndefined" "paramsCloneOptions exDeepRequest \<noteq> JUndefined"
    by (simp_all add: paramsCloneOptions_def exRequest_def exDeepRequest_def)
  have f: "fs exCached = exStorage\<lparr>existing := {exDir exRef}\<rparr>"
    unfolding exCached_def by code_simp
  have a: "fs_access (fs exStale) (getProp exEntry ''baseDir'') = Inl (ENOENT (exDir exRef))"
    by (simp add: b exStale_def exStorage_def fs_access_def)
  have e: "exDir exRef \<noteq> []" by (simp add: exDir_def)
  have q: "isEqual (JObj (fmap_of_list [(''depth'', JNum 1), (''keep'', JBool True)]))
              (JObj (fmap_of_list [(''keep'', JBool True), (''depth'', JNum 1)]))"
    by code_simp
  from cachedProjectIsValid_iff[of exEntry exRequest exStale] a
  have 1: "cachedProjectIsValid exEntry exRequest exStale = Inr False" by blast
  from cachedProjectIsValid_iff[of exEntry exRequest exCached] b c o(1) f e
  have 2: "cachedProjectIsValid exEntry exRequest exCached = Inr True"
    by (simp add: exStorage_def)
  from cachedProjectIsValid_iff[of exEntry exDeepRequest exCached] c o(2)
  have 3: "cachedProjectIsValid exEntry exDeepRequest exCached = Inr False"
    by (metis (full_types))
  from a 1 2 3 q show ?thesis by blast
qed

subsection \<open>Reclamation\<close>

text \<open>
  Claim C5. The reclamation routine is to remove the path from storage when it exists and
  to take it off the pending-deletion list. At a pending checkout whose timer fires, the
  directory goes and the path stays on the list: the routine calls \<^verbatim>\<open>slice\<close>, which
  builds a new array, where \<^verbatim>\<open>splice\<close> would have changed the list.
\<close>

theorem cleanUp_keeps_pending_path:
  "fst (cleanUp (JStr ''/tmp/r-main'') Timeout exPending) = Inr ()
   \<and> ''/tmp/r-main'' \<in> existing (fs exPending)
   \<and> ''/tmp/r-main'' \<notin> existing (fs (snd (cleanUp (JStr ''/tmp/r-main'') Timeout exPending)))
   \<and> deleteOnExit exPending = [JStr ''/tmp/r-main'']
   \<and> deleteOnExit (snd (cleanUp (JStr ''/tmp/r-main'') Timeout exPending)) = [JStr ''/tmp/r-main'']"
  by (simp add: cleanUp_def cleanUp_begins_def cleanUp_resumes_def exPending_def
      newCachingProjectLoader_def exStorage_def pathExists_def fs_access_def fs_remove_def
      within_def Let_def)

text \<open>
  Claim C9, as the code has it. When a checkout's directory exists and can be removed, the
  first reclamation trigger invoked for it removes it and logs the one removal, and every
  later trigger for the same path, whatever its reason, finds the path gone and does
  nothing: the removal is performed exactly once.
\<close>

theorem reclamation_once:
  assumes "d \<noteq> []" and "d \<in> existing (fs s)" and "d \<notin> unreadable (fs s)" and "d \<notin> locked (fs s)"
  shows "d \<notin> existing (fs (snd (cleanUp (JStr d) why s)))
       \<and> logger (snd (cleanUp (JStr d) why s)) = logger s @ [Deleting (JStr d) why]
       \<and> foldl (\<lambda>st r. snd (cleanUp (JStr d) r st)) (snd (cleanUp (JStr d) why s)) later
           = snd (cleanUp (JStr d) why s)"
proof -
  have gone: "d \<notin> existing (fs (snd (cleanUp (JStr d) why s)))"
    using assms by (simp add: cleanUp_fs pathExists_def fs_access_def fs_remove_def within_def)
  have logged: "logger (snd (cleanUp (JStr d) why s)) = logger s @ [Deleting (JStr d) why]"
    using assms
    by (simp add: cleanUp_def cleanUp_begins_def cleanUp_resumes_def pathExists_def fs_access_def
        fs_remove_def Let_def)
  have idle: "foldl (\<lambda>st r. snd (cleanUp (JStr d) r st)) st later = st"
    if "d \<notin> existing (fs st)" for st
    using that by (induction later) (simp_all add: cleanUp_absent)
  from gone logged idle[OF gone] show ?thesis by simp
qed

theorem reclamation_once_witness:
  "''/tmp/r-main'' \<noteq> []
   \<and> ''/tmp/r-main'' \<in> existing (fs exPending)
   \<and> ''/tmp/r-main'' \<notin> unreadable (fs exPending)
   \<and> ''/tmp/r-main'' \<notin> locked (fs exPending)
   \<and> ''/tmp/r-main'' \<notin> existing (fs (snd (cleanUp (JStr ''/tmp/r-main'') Timeout exPending)))
   \<and> logger (snd (cleanUp (JStr ''/tmp/r-main'') Timeout exPending))
       = [Deleting (JStr ''/tmp/r-main'') Timeout]
   \<and> foldl (\<lambda>st r. snd (cleanUp (JStr ''/tmp/r-main'') r st))
         (snd (cleanUp (JStr ''/tmp/r-main'') Timeout exPending)) [Shutdown, Disposal]
       = snd (cleanUp (JStr ''/tmp/r-main'') Timeout exPending)"
proof -
  have h: "''/tmp/r-main'' \<noteq> []" "''/tmp/r-main'' \<in> existing (fs exPending)"
    "''/tmp/r-main'' \<notin> unreadable (fs exPending)" "''/tmp/r-main'' \<notin> locked (fs exPending)"
    by (simp_all add: exPending_def newCachingProjectLoader_def exStorage_def)
  have l: "logger exPending = []"
    by (simp add: exPending_def newCachingProjectLoader_def)
  from reclamation_once[OF h, of Timeout "[Shutdown, Disposal]"] h l show ?thesis by simp
qed

text \<open>
  Claim C9, as stated, fails where the removal fails: the timer and then the shutdown hook
  are invoked for a directory that cannot be removed; each of them attempts the removal
  and warns, and the directory is still there afterwards. It also fails for a checkout
  that the cache store still holds at shutdown: the hook flushes the pending-deletion
  list only, so that the directory of the entry stays and nothing is logged.
\<close>

theorem reclamation_fails_twice:
  "''/tmp/r-main'' \<in> existing (fs (snd (shutdownHook (snd (timerFires \<lparr>timerDir = JStr ''/tmp/r-main'', delay = 10000, unref = True\<rparr> exLocked)))))
   \<and> logger (snd (shutdownHook (snd (timerFires \<lparr>timerDir = JStr ''/tmp/r-main'', delay = 10000, unref = True\<rparr> exLocked))))
     = [Deleting (JStr ''/tmp/r-main'') Timeout, Warn (EPERM ''/tmp/r-main''),
        Debug ''Deleting cached projects'',
        Deleting (JStr ''/tmp/r-main'') Shutdown, Warn (EPERM ''/tmp/r-main'')]
   \<and> map_of (entries (cache exCached)) (cacheKeyForSha exRef) = Some exEntry
   \<and> getProp exEntry ''baseDir'' = JStr (exDir exRef)
   \<and> exDir exRef \<in> existing (fs (snd (shutdownHook exCached)))
   \<and> logger (snd (shutdownHook exCached)) = logger exCached"
proof -
  have locked: "''/tmp/r-main'' \<in> existing (fs (snd (shutdownHook (snd (timerFires \<lparr>timerDir = JStr ''/tmp/r-main'', delay = 10000, unref = True\<rparr> exLocked)))))
   \<and> logger (snd (shutdownHook (snd (timerFires \<lparr>timerDir = JStr ''/tmp/r-main'', delay = 10000, unref = True\<rparr> exLocked))))
     = [Deleting (JStr ''/tmp/r-main'') Timeout, Warn (EPERM ''/tmp/r-main''),
        Debug ''Deleting cached projects'',
        Deleting (JStr ''/tmp/r-main'') Shutdown, Warn (EPERM ''/tmp/r-main'')]"
    by (simp add: shutdownHook_def timerFires_def cleanUpAll_def cleanUp_def cleanUp_begins_def
        cleanUp_resumes_def exLocked_def newCachingProjectLoader_def exStorage_def pathExists_def
        fs_access_def fs_remove_def logger_warn_def logger_debug_def Let_def)
  have pending: "deleteOnExit exCached = []"
    unfolding exCached_def by code_simp
  then have hook: "snd (shutdownHook exCached) = exCached"
    by (simp add: shutdownHook_def cleanUpAll_def)
  from locked hook exCached_entry exEntry_props(1) exCached_facts(1) show ?thesis by simp
qed

subsection \<open>Errors\<close>

text \<open>
  Claim C8, as the code has it. An error that a call of \<^verbatim>\<open>doWithProject\<close> returns is one
  the delegate returned for the request or one the action returned. The validity check
  always resolves: a storage failure in it is caught and makes the entry invalid, and it is
  not logged: a call that begins with no reclamation in flight adds no access failure to
  the log as a warning, and the eviction of the invalid entry leaves a debug line, which
  carries no error. The reclamation routine and the eviction callback always resolve, and
  a removal that fails is logged as a warning and leaves storage as it was. The store logs
  an eviction callback that fails where it is invoked. The shutdown hook resolves.
\<close>

theorem error_propagation:
  "(\<forall>e. fst (doWithProject delegate params action s) = Inl e \<longrightarrow>
        (\<exists>f. fst (delegate params f) = Inl e) \<or> (\<exists>p. action p = Inl e))
   \<and> (\<exists>valid. cachedProjectIsValid project params s = Inr valid)
   \<and> (\<forall>f v e. pending s = [] \<and> fs_access f v = Inl e
          \<and> Warn e \<in> set (logger (snd (doWithProject delegate params action s))) \<longrightarrow>
        Warn e \<in> set (logger s))
   \<and> (\<forall>old. readOnly params \<and> shaExact (sha (idRef params))
          \<and> map_of (entries (cache s)) (cacheKeyForSha (idRef params)) = Some old
          \<and> cachedProjectIsValid old params s = Inr False \<longrightarrow>
        Debug ''Evicting project from cache''
          \<in> set (logger (snd (doWithProject delegate params action s))))
   \<and> fst (cleanUp dir why s) = Inr ()
   \<and> fst (evictionCallback project s) = Inr ()
   \<and> (\<forall>err. truthy dir \<and> pathExists (fs s) dir \<and> fs_remove (fs s) dir = Inl err \<longrightarrow>
        cleanUp dir why s = (Inr (), s\<lparr>logger := logger s @ [Deleting dir why, Warn err]\<rparr>))
   \<and> (\<forall>v e s1. map_of (entries (cache s)) k = Some v \<and> cb v s = (Inl e, s1) \<longrightarrow>
        logger (LruCache_evict cb k s) = logger s1 @ [Warn e])
   \<and> fst (shutdownHook s) = Inr 0"
proof -
  have quiet: "Warn e \<in> set (logger s)"
    if "pending s = []" and "fs_access f v = Inl e"
      and "Warn e \<in> set (logger (snd (doWithProject delegate params action s)))" for f v e
    using doWithProject_warns[OF that(1,3)] fs_access_not_EPERM[OF that(2)] by blast
  have callback: "fst (evictionCallback project s) = Inr ()"
    by (simp add: evictionCallback_def)
  from doWithProject_error_origin[of delegate params action s]
    cachedProjectIsValid_resolves[of project params s] quiet
    stale_entry_logged[of params s _ delegate action]
    cleanUp_resolves[of dir why s] callback cleanUp_failed_removal[of dir s _ why]
    LruCache_evict_failed_callback[of s k _ cb] shutdownHook_resolves[of s]
  show ?thesis by blast
qed

theorem error_propagation_witness:
  "fst (doWithProject exFailingDelegate exRequest exAction (newCachingProjectLoader None exStorage))
     = Inl (Failure ''clone failed'')
   \<and> ((\<exists>f. fst (exFailingDelegate exRequest f) = Inl (Failure ''clone failed''))
        \<or> (\<exists>p. exAction p = Inl (Failure ''clone failed'')))
   \<and> cachedProjectIsValid exEntry exRequest exStale = Inr False
   \<and> pending exStale = []
   \<and> fs_access (fs exStale) (getProp exEntry ''baseDir'') = Inl (ENOENT (exDir exRef))
   \<and> Warn (ENOENT (exDir exRef)) \<notin> set (logger exStale)
   \<and> Warn (ENOENT (exDir exRef))
        \<notin> set (logger (snd (doWithProject exDelegate exRequest exAction exStale)))
   \<and> Debug ''Evicting project from cache''
        \<in> set (logger (snd (doWithProject exDelegate exRequest exAction exStale)))
   \<and> truthy (JStr ''/tmp/r-main'')
   \<and> pathExists (fs exLocked) (JStr ''/tmp/r-main'')
   \<and> fs_remove (fs exLocked) (JStr ''/tmp/r-main'') = Inl (EPERM ''/tmp/r-main'')
   \<and> cleanUp (JStr ''/tmp/r-main'') Shutdown exLocked
       = (Inr (), exLocked\<lparr>logger := logger exLocked
                                  @ [Deleting (JStr ''/tmp/r-main'') Shutdown, Warn (EPERM ''/tmp/r-main'')]\<rparr>)
   \<and> logger (LruCache_evict exFailingCallback (cacheKeyForSha (idRef exRequest)) exStale)
       = logger exStale @ [Warn (Failure ''callback failed'')]"
proof -
  have m: "map_of (entries (cache (newCachingProjectLoader None exStorage)))
             (cacheKeyForSha (idRef exRequest)) = None"
    by (simp add: newCachingProjectLoader_def)
  have r: "fst (doWithProject exFailingDelegate exRequest exAction (newCachingProjectLoader None exStorage))
             = Inl (Failure ''clone failed'')"
    unfolding doWithProject_miss[OF exRequest_facts(1,2) m]
    by (simp add: exFailingDelegate_def save_def)
  have h: "truthy (JStr ''/tmp/r-main'')" "pathExists (fs exLocked) (JStr ''/tmp/r-main'')"
    "fs_remove (fs exLocked) (JStr ''/tmp/r-main'') = Inl (EPERM ''/tmp/r-main'')"
    by (simp_all add: exLocked_def newCachingProjectLoader_def exStorage_def pathExists_def
        fs_access_def fs_remove_def)
  have a: "fs_access (fs exStale) (getProp exEntry ''baseDir'') = Inl (ENOENT (exDir exRef))"
    by (simp add: exEntry_props exStale_facts(3) exStorage_def fs_access_def)
  have l: "logger exCached = [Debug ''Attempting to reuse clone for readonly use'',
                              Debug ''Caching project'', Debug ''About to invoke action'']"
    unfolding exCached_def by code_simp
  then have w: "Warn (ENOENT (exDir exRef)) \<notin> set (logger exStale)"
    by (simp add: exStale_def)
  from error_propagation[where delegate = exFailingDelegate and params = exRequest
      and action = exAction and s = "newCachingProjectLoader None exStorage"] r
  have 1: "(\<exists>f. fst (exFailingDelegate exRequest f) = Inl (Failure ''clone failed''))
        \<or> (\<exists>p. exAction p = Inl (Failure ''clone failed''))"
    by blast
  from error_propagation[where delegate = exFailingDelegate and params = exRequest
      and action = exAction and s = exLocked and dir = "JStr ''/tmp/r-main''" and why = Shutdown] h
  have 2: "cleanUp (JStr ''/tmp/r-main'') Shutdown exLocked
       = (Inr (), exLocked\<lparr>logger := logger exLocked
                                  @ [Deleting (JStr ''/tmp/r-main'') Shutdown, Warn (EPERM ''/tmp/r-main'')]\<rparr>)"
    by blast
  from error_propagation[where delegate = exDelegate and params = exRequest
      and action = exAction and s = exStale] exRequest_facts(1,2) exStale_facts(1,2)
  have 3: "Debug ''Evicting project from cache''
        \<in> set (logger (snd (doWithProject exDelegate exRequest exAction exStale)))"
    by blast
  from error_propagation[where delegate = exDelegate and params = exRequest
      and action = exAction and s = exStale] exStale_facts(4) a w
  have 5: "Warn (ENOENT (exDir exRef))
        \<notin> set (logger (snd (doWithProject exDelegate exRequest exAction exStale)))"
    by blast
  have cb: "exFailingCallback exEntry exStale = (Inl (Failure ''callback failed''), exStale)"
    by (simp add: exFailingCallback_def)
  from error_propagation[where delegate = exDelegate and params = exRequest
      and action = exAction and s = exStale and k = "cacheKeyForSha (idRef exRequest)"
      and cb = exFailingCallback and project = exEntry and dir = JUndefined and why = Shutdown]
    exStale_facts(1) cb
  have 4: "logger (LruCache_evict exFailingCallback (cacheKeyForSha (idRef exRequest)) exStale)
       = logger exStale @ [Warn (Failure ''callback failed'')]"
    by blast
  from r 1 h 2 3 4 5 a w exStale_facts(2,4) show ?thesis by blast
qed

text \<open>
  Claim C8, as stated, fails for the storage failure of the validity check: it is absorbed
  and not logged. The entry's directory has been deleted, the access to it fails, the call
  succeeds with a fresh checkout, and the four lines that the call adds to the log are
  debug lines of which none carries the failure.
\<close>

theorem validity_failure_not_logged:
  "fs_access (fs exStale) (getProp exEntry ''baseDir'') = Inl (ENOENT (exDir exRef))
   \<and> cachedProjectIsValid exEntry exRequest exStale = Inr False
   \<and> fst (doWithProject exDelegate exRequest exAction exStale) = Inr (JStr (exDir exRef))
   \<and> logger exStale
       = [Debug ''Attempting to reuse clone for readonly use'', Debug ''Caching project'',
          Debug ''About to invoke action'']
   \<and> logger (snd (doWithProject exDelegate exRequest exAction exStale))
       = [Debug ''Attempting to reuse clone for readonly use'', Debug ''Caching project'',
          Debug ''About to invoke action'',
          Debug ''Attempting to reuse clone for readonly use'',
          Debug ''Evicting project from cache'', Debug ''Caching project'',
          Debug ''About to invoke action'']"
proof -
  have a: "fs_access (fs exStale) (getProp exEntry ''baseDir'') = Inl (ENOENT (exDir exRef))"
    by (simp add: exEntry_props exStale_facts(3) exStorage_def fs_access_def)
  have r: "fst (doWithProject exDelegate exRequest exAction exStale) = Inr (JStr (exDir exRef))"
    unfolding exStale_def exCached_def by code_simp
  have l0: "logger exStale
       = [Debug ''Attempting to reuse clone for readonly use'', Debug ''Caching project'',
          Debug ''About to invoke action'']"
    unfolding exStale_def exCached_def by code_simp
  have l1: "logger (snd (doWithProject exDelegate exRequest exAction exStale))
       = [Debug ''Attempting to reuse clone for readonly use'', Debug ''Caching project'',
          Debug ''About to invoke action'',
          Debug ''Attempting to reuse clone for readonly use'',
          Debug ''Evicting project from cache'', Debug ''Caching project'',
          Debug ''About to invoke action'']"
    unfolding exStale_def exCached_def by code_simp
  from a exStale_facts(2) r l0 l1 show ?thesis by (intro conjI)
qed

subsection \<open>The cached path\<close>



text \<open>
  Claim C1, as the code has it. Two read-only requests for the same repository and the
  same exact commit, one after the other: when the first has left an entry under the
  content key, the clone options stored with the entry are deep-value-equal to those of
  the second request, and the entry's directory is accessible when the second request
  arrives, then the second request does not invoke the delegate, so that the two calls
  invoke it at most once, and its action receives the stored entry, whose directory is
  the one the first action was given.
\<close>

theorem second_request_served_from_cache:
  assumes "readOnly p1" and "readOnly p2" and "shaExact (sha (idRef p1))" and "idRef p2 = idRef p1"
    and "doWithProject delegate p1 a1 s0 = (r1, s1)"
    and "map_of (entries (cache s1)) (cacheKeyForSha (idRef p1)) = Some e"
    and "isEqual (getProp e ''cloneOptions'') (paramsCloneOptions p2)"
    and "fs_access (fs s1) (getProp e ''baseDir'') = Inr ()"
  shows "materializations (snd (doWithProject delegate p2 a2 s1)) = materializations s1
       \<and> length (materializations (snd (doWithProject delegate p2 a2 s1)))
           \<le> length (materializations s0) + 1
       \<and> fst (doWithProject delegate p2 a2 s1) = a2 e
       \<and> (\<exists>x. r1 = a1 x \<and> getProp x ''baseDir'' = getProp e ''baseDir'')"
proof -
  have valid: "cachedProjectIsValid e p2 s1 = Inr True"
    using assms(7,8) by (simp add: cachedProjectIsValid_def)
  have ex2: "shaExact (sha (idRef p2))" and k2: "map_of (entries (cache s1)) (cacheKeyForSha (idRef p2)) = Some e"
    using assms(3,4,6) by simp_all
  note hit = doWithProject_hit[OF assms(2) ex2 k2 valid, of delegate a2]
  have second: "materializations (snd (doWithProject delegate p2 a2 s1)) = materializations s1"
    "fst (doWithProject delegate p2 a2 s1) = a2 e"
    unfolding hit by simp_all
  from first_request_entry[OF assms(1,3,5,6)]
  have first: "length (materializations s1) \<le> length (materializations s0) + 1
      \<and> (\<exists>x. r1 = a1 x \<and> getProp x ''baseDir'' = getProp e ''baseDir'')"
  proof
    assume "materializations s1 = materializations s0 \<and> r1 = a1 e"
    then show ?thesis by auto
  next
    assume "materializations s1 = materializations s0 @ [p1]
      \<and> (\<exists>p. r1 = a1 p \<and> e = spread p (paramsProps p1))"
    then obtain p where m: "materializations s1 = materializations s0 @ [p1]"
      and r: "r1 = a1 p" and e: "e = spread p (paramsProps p1)" by blast
    from assms(8) e have "getProp p ''baseDir'' = getProp e ''baseDir''"
      using spread_baseDir[of "fs s1" p p1] by simp
    with m r show ?thesis by auto
  qed
  from second first show ?thesis by simp
qed

theorem second_request_served_from_cache_witness:
  "readOnly exRequest \<and> shaExact (sha (idRef exRequest))
   \<and> map_of (entries (cache exCached)) (cacheKeyForSha (idRef exRequest)) = Some exEntry
   \<and> isEqual (getProp exEntry ''cloneOptions'') (paramsCloneOptions exRequest)
   \<and> fs_access (fs exCached) (getProp exEntry ''baseDir'') = Inr ()
   \<and> materializations (snd (doWithProject exDelegate exRequest exAction exCached)) = [exRequest]
   \<and> fst (doWithProject exDelegate exRequest exAction exCached) = Inr (JStr (exDir exRef))
   \<and> fst (doWithProject exDelegate exRequest exAction (newCachingProjectLoader None exStorage))
       = Inr (JStr (exDir exRef))"
proof -
  let ?s0 = "newCachingProjectLoader None exStorage"
  have run: "doWithProject exDelegate exRequest exAction ?s0
      = (fst (doWithProject exDelegate exRequest exAction ?s0), exCached)"
    by (simp add: exCached_def)
  have m: "map_of (entries (cache exCached)) (cacheKeyForSha (idRef exRequest)) = Some exEntry"
    using exCached_entry by (simp add: exRequest_facts)
  have b: "getProp exEntry ''baseDir'' = JStr (exDir exRef)"
    by (simp add: exEntry_def getProp_spread paramsProps_lookup exProject_def)
  have c: "isEqual (getProp exEntry ''cloneOptions'') (paramsCloneOptions exRequest)"
    by (simp add: isEqual_def exEntry_def getProp_spread paramsProps_lookup paramsCloneOptions_def
        exProject_def exRequest_def)
  have f: "fs exCached = exStorage\<lparr>existing := {exDir exRef}\<rparr>"
    unfolding exCached_def by code_simp
  have a: "fs_access (fs exCached) (getProp exEntry ''baseDir'') = Inr ()"
    by (simp add: b f fs_access_def exStorage_def exDir_def)
  have ms: "materializations exCached = [exRequest]"
    unfolding exCached_def by code_simp
  have r1: "fst (doWithProject exDelegate exRequest exAction ?s0) = Inr (JStr (exDir exRef))"
    by code_simp
  from second_request_served_from_cache[OF exRequest_facts(1) exRequest_facts(1) exRequest_facts(2)
      refl run m c a, of exAction]
  have "materializations (snd (doWithProject exDelegate exRequest exAction exCached)) = materializations exCached
      \<and> fst (doWithProject exDelegate exRequest exAction exCached) = exAction exEntry"
    by blast
  with m c a ms r1 b exRequest_facts(1,2) show ?thesis by (simp add: exAction_def)
qed

text \<open>
  Claim C1, as stated, fails when the two requests differ in their clone options: both
  are read-only and name the same repository and commit, and the delegate is invoked for
  each of them.
\<close>

theorem second_request_other_options_refetches:
  "readOnly exRequest \<and> readOnly exDeepRequest
   \<and> idRef exDeepRequest = idRef exRequest
   \<and> shaExact (sha (idRef exRequest))
   \<and> materializations
        (snd (doWithProject exDelegate exDeepRequest exAction
               (snd (doWithProject exDelegate exRequest exAction (newCachingProjectLoader None exStorage)))))
       = [exRequest, exDeepRequest]"
proof -
  have "materializations
        (snd (doWithProject exDelegate exDeepRequest exAction
               (snd (doWithProject exDelegate exRequest exAction (newCachingProjectLoader None exStorage)))))
       = [exRequest, exDeepRequest]"
    by code_simp
  moreover have "idRef exDeepRequest = idRef exRequest" "readOnly exDeepRequest"
    by (simp_all add: exDeepRequest_def exRequest_facts(1))
  ultimately show ?thesis
    using exRequest_facts(1,2) by blast
qed

text \<open>
  Claim C10. A read-only request for an exact commit that misses gives its action the
  project as the delegate delivered it, and stores under the key a new object: the own
  properties of the project overridden by the properties of the request, with nothing
  inherited. That stored object is what the action of a later request that hits receives.
  It carries the request's \<^verbatim>\<open>readOnly\<close>, \<^verbatim>\<open>id\<close>, \<^verbatim>\<open>cloneOptions\<close> and
  \<^verbatim>\<open>context\<close>; a property that the project only inherits reads as undefined on it;
  and it is not the project whenever the project inherits anything.
\<close>

theorem cache_hit_serves_merged_object:
  assumes "readOnly q" and "shaExact (sha (idRef q))"
    and "map_of (entries (cache s)) (cacheKeyForSha (idRef q)) = None"
    and "delegate q (fs s) = (Inr p, f)"
  shows "fst (doWithProject delegate q a s) = a p
       \<and> map_of (entries (cache (snd (doWithProject delegate q a s)))) (cacheKeyForSha (idRef q))
           = Some (spread p (paramsProps q))
       \<and> (\<forall>q2. readOnly q2 \<and> idRef q2 = idRef q
              \<and> isEqual (getProp (spread p (paramsProps q)) ''cloneOptions'') (paramsCloneOptions q2)
              \<and> fs_access (fs (snd (doWithProject delegate q a s)))
                   (getProp (spread p (paramsProps q)) ''baseDir'') = Inr ()
            \<longrightarrow> fst (doWithProject delegate q2 a2 (snd (doWithProject delegate q a s)))
                  = a2 (spread p (paramsProps q)))
       \<and> own (spread p (paramsProps q)) = own p ++\<^sub>f paramsProps q
       \<and> inherited (spread p (paramsProps q)) = fmempty
       \<and> getProp (spread p (paramsProps q)) ''readOnly'' = JBool (readOnly q)
       \<and> getProp (spread p (paramsProps q)) ''id'' = JRef (idRef q)
       \<and> (\<forall>v. cloneOptions q = Some v \<longrightarrow> getProp (spread p (paramsProps q)) ''cloneOptions'' = v)
       \<and> (\<forall>c. contextOpt q = Some c \<longrightarrow> getProp (spread p (paramsProps q)) ''context'' = JCtx c)
       \<and> (\<forall>k. fmlookup (own p) k = None \<and> fmlookup (paramsProps q) k = None
            \<longrightarrow> getProp (spread p (paramsProps q)) k = JUndefined)
       \<and> (inherited p \<noteq> fmempty \<longrightarrow> spread p (paramsProps q) \<noteq> p)"
proof -
  let ?k = "cacheKeyForSha (idRef q)"
  let ?e = "spread p (paramsProps q)"
  let ?s1 = "snd (LruCache_get ?k (logger_debug ''Attempting to reuse clone for readonly use'' s))"
  have m: "map_of (entries (cache ?s1)) ?k = None" using assms(3) by simp
  have d: "delegate q (fs ?s1) = (Inr p, f)" using assms(4) by simp
  note lc = load_and_cache[where delegate = delegate and params = q and action = a
      and k = ?k and ?s2.0 = ?s1]
  note run = doWithProject_miss[OF assms(1,2,3), of delegate a]
  have first: "fst (doWithProject delegate q a s) = a p"
    "map_of (entries (cache (snd (doWithProject delegate q a s)))) ?k = Some ?e"
    unfolding run using lc(5)[OF d] lc(6)[OF d] by simp_all
  have later: "fst (doWithProject delegate q2 a2 (snd (doWithProject delegate q a s))) = a2 ?e"
    if "readOnly q2" and "idRef q2 = idRef q"
      and "isEqual (getProp ?e ''cloneOptions'') (paramsCloneOptions q2)"
      and "fs_access (fs (snd (doWithProject delegate q a s))) (getProp ?e ''baseDir'') = Inr ()"
    for q2
  proof -
    have v: "cachedProjectIsValid ?e q2 (snd (doWithProject delegate q a s)) = Inr True"
      using that(3,4) by (simp add: cachedProjectIsValid_def)
    have e2: "shaExact (sha (idRef q2))"
      and k2: "map_of (entries (cache (snd (doWithProject delegate q a s)))) (cacheKeyForSha (idRef q2)) = Some ?e"
      using that(2) assms(2) first(2) by simp_all
    show ?thesis
      unfolding doWithProject_hit[OF that(1) e2 k2 v, of delegate a2] by simp
  qed
  have shape: "own ?e = own p ++\<^sub>f paramsProps q" "inherited ?e = fmempty"
    by (simp_all add: spread_def)
  have fields: "getProp ?e ''readOnly'' = JBool (readOnly q)" "getProp ?e ''id'' = JRef (idRef q)"
    "\<And>v. cloneOptions q = Some v \<Longrightarrow> getProp ?e ''cloneOptions'' = v"
    "\<And>c. contextOpt q = Some c \<Longrightarrow> getProp ?e ''context'' = JCtx c"
    "\<And>k. fmlookup (own p) k = None \<Longrightarrow> fmlookup (paramsProps q) k = None \<Longrightarrow> getProp ?e k = JUndefined"
    by (simp_all add: getProp_spread paramsProps_lookup)
  have other: "spread p (paramsProps q) \<noteq> p" if "inherited p \<noteq> fmempty"
  proof
    assume "spread p (paramsProps q) = p"
    then have "inherited (spread p (paramsProps q)) = inherited p" by simp
    with that shape(2) show False by simp
  qed
  from first later shape fields other show ?thesis by blast
qed

theorem cache_hit_serves_merged_object_witness:
  "readOnly exRequest \<and> shaExact (sha (idRef exRequest))
   \<and> fst (doWithProject exDelegate exRequest exAction (newCachingProjectLoader None exStorage))
       = exAction (exProject exRef)
   \<and> map_of (entries (cache exCached)) (cacheKeyForSha (idRef exRequest)) = Some exEntry
   \<and> fst (doWithProject exDelegate exRequest exAction exCached) = exAction exEntry
   \<and> getProp exEntry ''readOnly'' = JBool True
   \<and> getProp (exProject exRef) ''findFile'' = JFun ''findFile''
   \<and> getProp exEntry ''findFile'' = JUndefined
   \<and> exEntry \<noteq> exProject exRef"
proof -
  let ?s0 = "newCachingProjectLoader None exStorage"
  have m: "map_of (entries (cache ?s0)) (cacheKeyForSha (idRef exRequest)) = None"
    by (simp add: newCachingProjectLoader_def)
  have d: "exDelegate exRequest (fs ?s0) = (Inr (exProject exRef), exStorage\<lparr>existing := {exDir exRef}\<rparr>)"
    using exDelegate_fresh[of exRequest None] by (simp add: exRequest_facts exStorage_def)
  have k: "fmlookup (own (exProject exRef)) ''findFile'' = None \<and> fmlookup (paramsProps exRequest) ''findFile'' = None"
    by (simp add: exProject_def paramsProps_def exRequest_def)
  have i: "inherited (exProject exRef) \<noteq> fmempty"
  proof
    assume "inherited (exProject exRef) = fmempty"
    then have "fmlookup (inherited (exProject exRef)) ''findFile'' = None" by simp
    then show False by (simp add: exProject_def)
  qed
  have g: "getProp (exProject exRef) ''findFile'' = JFun ''findFile''"
    by (simp add: getProp_def exProject_def)
  have hit: "readOnly exRequest \<and> idRef exRequest = idRef exRequest
      \<and> isEqual (getProp (spread (exProject exRef) (paramsProps exRequest)) ''cloneOptions'')
           (paramsCloneOptions exRequest)
      \<and> fs_access (fs (snd (doWithProject exDelegate exRequest exAction ?s0)))
           (getProp (spread (exProject exRef) (paramsProps exRequest)) ''baseDir'') = Inr ()"
    using exRequest_facts(1) exEntry_props(2) exCached_facts(3)
    by (simp add: exEntry_def exCached_def isEqual_def paramsCloneOptions_def exRequest_def)
  from cache_hit_serves_merged_object[where q = exRequest and s = "?s0" and delegate = exDelegate
      and p = "exProject exRef" and a = exAction and ?a2.0 = exAction, OF exRequest_facts(1,2) m d] k i hit
  have "fst (doWithProject exDelegate exRequest exAction ?s0) = exAction (exProject exRef)
      \<and> map_of (entries (cache (snd (doWithProject exDelegate exRequest exAction ?s0))))
           (cacheKeyForSha (idRef exRequest)) = Some (spread (exProject exRef) (paramsProps exRequest))
      \<and> fst (doWithProject exDelegate exRequest exAction (snd (doWithProject exDelegate exRequest exAction ?s0)))
           = exAction (spread (exProject exRef) (paramsProps exRequest))
      \<and> getProp (spread (exProject exRef) (paramsProps exRequest)) ''readOnly'' = JBool (readOnly exRequest)
      \<and> getProp (spread (exProject exRef) (paramsProps exRequest)) ''findFile'' = JUndefined
      \<and> spread (exProject exRef) (paramsProps exRequest) \<noteq> exProject exRef"
    by blast
  with g exRequest_facts(1,2) show ?thesis
    by (simp add: exEntry_def exCached_def)
qed

subsection \<open>The cache store\<close>

lemma applyOp_bounded:
  assumes "bounded s"
  shows "bounded (applyOp op s) \<and> maxEntries (cache (applyOp op s)) = maxEntries (cache s)"
proof (cases op)
  case (Get k)
  with assms LruCache_get_length[of k s] show ?thesis by (simp add: bounded_def)
next
  case (Put k v)
  with assms LruCache_put_length[of s k v] show ?thesis by (simp add: bounded_def)
next
  case (Evict k)
  with assms length_removeKey[of k "entries (cache s)"] show ?thesis by (simp add: bounded_def)
qed

lemma applyOps_bounded:
  "bounded s \<Longrightarrow> bounded (fold applyOp ops s) \<and> maxEntries (cache (fold applyOp ops s)) = maxEntries (cache s)"
proof (induction ops arbitrary: s)
  case Nil
  then show ?case by simp
next
  case (Cons op ops)
  from applyOp_bounded[OF Cons.prems, of op] Cons.IH[of "applyOp op s"] show ?case by simp
qed

lemma saveAndRunAction_cache: "cache (snd (saveAndRunAction delegate params action s)) = cache s"
  by (simp add: saveAndRunAction_def save_def split: prod.splits sum.splits option.splits)

lemma doWithProject_bounded:
  assumes "bounded s"
  shows "bounded (snd (doWithProject delegate params action s))
       \<and> maxEntries (cache (snd (doWithProject delegate params action s))) = maxEntries (cache s)"
proof (cases "readOnly params \<and> shaExact (sha (idRef params))")
  case False
  then have "cache (snd (doWithProject delegate params action s)) = cache s"
    by (auto simp: doWithProject_def saveAndRunAction_cache)
  with assms show ?thesis by (simp add: bounded_def)
next
  case True
  let ?k = "cacheKeyForSha (idRef params)"
  let ?s1 = "snd (LruCache_get ?k (logger_debug ''Attempting to reuse clone for readonly use'' s))"
  have b1: "bounded ?s1"
    using assms LruCache_get_length[of ?k "logger_debug ''Attempting to reuse clone for readonly use'' s"]
    by (simp add: bounded_def)
  have cont: "bounded (snd res) \<and> maxEntries (cache (snd res)) = maxEntries (cache s)"
    if b2: "bounded s2" and m2: "maxEntries (cache s2) = maxEntries (cache s)"
      and res: "res = (case save delegate params s2 of
              (Inl e, s3) \<Rightarrow> (Inl e, settle s3)
            | (Inr p, s3) \<Rightarrow>
                (action p,
                 settle
                   (logger_debug ''About to invoke action''
                      (LruCache_put evictionCallback ?k
                         (spread p (paramsProps params))
                         (logger_debug ''Caching project'' (settle s3))))))"
    for s2 and res :: "(error + 'a) \<times> state"
  proof -
    obtain r f where d: "delegate params (fs s2) = (r, f)" by fastforce
    note sv = save_result[of delegate params s2 r f, OF d]
    let ?s5 = "logger_debug ''Caching project''
                 (settle (s2\<lparr>fs := f, materializations := materializations s2 @ [params]\<rparr>))"
    have b5: "0 < maxEntries (cache ?s5)" "length (entries (cache ?s5)) \<le> maxEntries (cache ?s5)"
      using b2 by (simp_all add: bounded_def)
    show ?thesis
    proof (cases r)
      case (Inl e)
      with res sv b2 m2 show ?thesis by (simp add: bounded_def)
    next
      case (Inr p)
      with res sv LruCache_put_length[OF b5, of ?k "spread p (paramsProps params)"] b2 m2
      show ?thesis by (simp add: bounded_def)
    qed
  qed
  show ?thesis
  proof (cases "map_of (entries (cache s)) ?k")
    case None
    from cont[OF b1 _ doWithProject_miss[of params s delegate action]] True None
    show ?thesis by simp
  next
    case (Some old)
    from cachedProjectIsValid_resolves[of old params s] obtain valid
      where v: "cachedProjectIsValid old params s = Inr valid" ..
    show ?thesis
    proof (cases valid)
      case True
      with doWithProject_hit[of params s old delegate action] \<open>readOnly params \<and> shaExact (sha (idRef params))\<close>
        Some v b1
      show ?thesis by (simp add: bounded_def)
    next
      case False
      let ?s2 = "LruCache_evict evictionCallback ?k (logger_debug ''Evicting project from cache'' ?s1)"
      have b2: "bounded ?s2"
        using b1 length_removeKey[of ?k "entries (cache ?s1)"] by (simp add: bounded_def)
      from False v cont[OF b2 _ doWithProject_stale[of params s old delegate action]] True Some
      show ?thesis by simp
    qed
  qed
qed

lemma requests_bounded:
  "bounded s \<Longrightarrow> bounded (requests delegate action ps s)
     \<and> maxEntries (cache (requests delegate action ps s)) = maxEntries (cache s)"
proof (induction ps arbitrary: s)
  case Nil
  then show ?case by simp
next
  case (Cons p ps)
  from doWithProject_bounded[OF Cons.prems, of delegate p action]
    Cons.IH[of "snd (doWithProject delegate p action s)"]
  show ?case by simp
qed

lemma requests_append:
  "requests delegate action (xs @ ys) s = requests delegate action ys (requests delegate action xs s)"
  by (induction xs arbitrary: s) simp_all

lemma miss_with_room:
  assumes "readOnly q" and "shaExact (sha (idRef q))"
    and "map_of (entries (cache s)) (cacheKeyForSha (idRef q)) = None"
    and "length (entries (cache s)) < maxEntries (cache s)"
    and "delegate q (fs s) = (Inr p, f)"
    and "pending s = []"
  shows "entries (cache (snd (doWithProject delegate q a s)))
           = entries (cache s) @ [(cacheKeyForSha (idRef q), spread p (paramsProps q))]"
    and "fs (snd (doWithProject delegate q a s)) = f"
    and "maxEntries (cache (snd (doWithProject delegate q a s))) = maxEntries (cache s)"
    and "pending (snd (doWithProject delegate q a s)) = []"
proof -
  let ?k = "cacheKeyForSha (idRef q)"
  let ?s1 = "snd (LruCache_get ?k (logger_debug ''Attempting to reuse clone for readonly use'' s))"
  have e1: "entries (cache ?s1) = entries (cache s)"
    using assms(3) by (simp add: LruCache_get_miss)
  have d: "delegate q (fs ?s1) = (Inr p, f)" using assms(5) by simp
  let ?s3 = "?s1\<lparr>fs := f, materializations := materializations s @ [q]\<rparr>"
  have idle3: "settle ?s3 = ?s3"
    using assms(6) by (intro settle_idle) simp
  let ?s5 = "logger_debug ''Caching project'' ?s3"
  have room: "map_of (entries (cache ?s5)) ?k = None" "length (entries (cache ?s5)) < maxEntries (cache ?s5)"
    using assms(3,4) e1 by simp_all
  note put = LruCache_put_room[OF room, of evictionCallback "spread p (paramsProps q)"]
  let ?s7 = "logger_debug ''About to invoke action''
               (LruCache_put evictionCallback ?k (spread p (paramsProps q)) ?s5)"
  have idle7: "settle ?s7 = ?s7"
    unfolding put using assms(6) by (intro settle_idle) simp
  have run: "snd (doWithProject delegate q a s) = ?s7"
    unfolding doWithProject_miss[OF assms(1,2,3)] save_result[of delegate q ?s1 "Inr p" f, OF d]
    by (simp add: idle3 idle7)
  show "entries (cache (snd (doWithProject delegate q a s))) = entries (cache s) @ [(?k, spread p (paramsProps q))]"
    unfolding run put using e1 by simp
  show "fs (snd (doWithProject delegate q a s)) = f"
    unfolding run put by simp
  show "maxEntries (cache (snd (doWithProject delegate q a s))) = maxEntries (cache s)"
    unfolding run by simp
  show "pending (snd (doWithProject delegate q a s)) = []"
    unfolding run put using assms(6) by simp
qed

lemma miss_when_full:
  assumes "readOnly q" and "shaExact (sha (idRef q))"
    and "map_of (entries (cache s)) (cacheKeyForSha (idRef q)) = None"
    and "entries (cache s) = (k0, e0) # rest"
    and "maxEntries (cache s) \<le> length (entries (cache s))"
    and "delegate q (fs s) = (Inr p, f)"
    and "pending s = []"
  shows "entries (cache (snd (doWithProject delegate q a s)))
           = removeKey k0 rest @ [(cacheKeyForSha (idRef q), spread p (paramsProps q))]"
    and "fs (snd (doWithProject delegate q a s))
           = fs (snd (cleanUp (getProp e0 ''baseDir'') Eviction (s\<lparr>fs := f\<rparr>)))"
proof -
  let ?k = "cacheKeyForSha (idRef q)"
  let ?dir = "getProp e0 ''baseDir''"
  let ?s1 = "snd (LruCache_get ?k (logger_debug ''Attempting to reuse clone for readonly use'' s))"
  have e1: "entries (cache ?s1) = entries (cache s)"
    using assms(3) by (simp add: LruCache_get_miss)
  have d: "delegate q (fs ?s1) = (Inr p, f)" using assms(6) by simp
  let ?s3 = "?s1\<lparr>fs := f, materializations := materializations s @ [q]\<rparr>"
  have idle3: "settle ?s3 = ?s3"
    using assms(7) by (intro settle_idle) simp
  let ?s5 = "logger_debug ''Caching project'' ?s3"
  have full: "map_of (entries (cache ?s5)) ?k = None" "maxEntries (cache ?s5) \<le> length (entries (cache ?s5))"
    "entries (cache ?s5) = (k0, e0) # rest"
    using assms(3,4,5) e1 by simp_all
  note put = LruCache_put_full[OF full, of "spread p (paramsProps q)"]
  let ?s7 = "logger_debug ''About to invoke action''
               (LruCache_put evictionCallback ?k (spread p (paramsProps q)) ?s5)"
  have run: "snd (doWithProject delegate q a s) = settle ?s7"
    unfolding doWithProject_miss[OF assms(1,2,3)] save_result[of delegate q ?s1 "Inr p" f, OF d]
    by (simp add: idle3)
  show "entries (cache (snd (doWithProject delegate q a s))) = removeKey k0 rest @ [(?k, spread p (paramsProps q))]"
    unfolding run using put(1) by simp
  have f7: "fs ?s7 = f" by simp
  have begins: "cleanUp_begins ?dir ?s5 = cleanUp_begins ?dir (s\<lparr>fs := f\<rparr>)"
    by (simp add: cleanUp_begins_def)
  have p7: "pending ?s7 = (if cleanUp_begins ?dir (s\<lparr>fs := f\<rparr>) then [(?dir, Eviction)] else [])"
    using put(2) assms(7) begins by simp
  show "fs (snd (doWithProject delegate q a s)) = fs (snd (cleanUp ?dir Eviction (s\<lparr>fs := f\<rparr>)))"
  proof (cases "cleanUp_begins ?dir (s\<lparr>fs := f\<rparr>)")
    case True
    with p7 have "pending ?s7 = [(?dir, Eviction)]" by simp
    from settle_one[OF this] f7 True show ?thesis
      unfolding run by (simp add: cleanUp_def cleanUp_resumes_fs split: sum.splits)
  next
    case False
    with p7 have "pending ?s7 = []" by simp
    from settle_idle[OF this] f7 False show ?thesis
      unfolding run by (simp add: cleanUp_def)
  qed
qed

lemma cleanUp_removes:
  assumes "d \<noteq> []" and "locked (fs s) = {}" and "unreadable (fs s) = {}"
  shows "d \<notin> existing (fs (snd (cleanUp (JStr d) why s)))"
  using assms
  by (simp add: cleanUp_fs pathExists_def fs_access_def fs_remove_def within_def)

lemma map_of_absent: "k \<notin> set (map fst es) \<Longrightarrow> map_of es k = None"
  by (simp add: map_of_eq_None_iff)

lemma fill:
  assumes "\<forall>q\<in>set ps. readOnly q \<and> shaExact (sha (idRef q))"
    and "distinct (map fst (entries (cache s)) @ map (\<lambda>q. cacheKeyForSha (idRef q)) ps)"
    and "length (entries (cache s)) + length ps \<le> maxEntries (cache s)"
    and "pending s = []"
    and "\<forall>q f e. fst (delegate q f) \<noteq> Inl e"
    and "\<forall>q f. locked (snd (delegate q f)) = locked f \<and> unreadable (snd (delegate q f)) = unreadable f"
  shows "(\<exists>es. entries (cache (requests delegate action ps s)) = entries (cache s) @ es
               \<and> map fst es = map (\<lambda>q. cacheKeyForSha (idRef q)) ps)
       \<and> maxEntries (cache (requests delegate action ps s)) = maxEntries (cache s)
       \<and> pending (requests delegate action ps s) = []
       \<and> locked (fs (requests delegate action ps s)) = locked (fs s)
       \<and> unreadable (fs (requests delegate action ps s)) = unreadable (fs s)"
  using assms(1,2,3,4)
proof (induction ps arbitrary: s)
  case Nil
  then show ?case by simp
next
  case (Cons q ps)
  let ?k = "cacheKeyForSha (idRef q)"
  have q: "readOnly q" "shaExact (sha (idRef q))" using Cons.prems(1) by simp_all
  have absent: "map_of (entries (cache s)) ?k = None"
    using Cons.prems(2) by (intro map_of_absent) auto
  have room: "length (entries (cache s)) < maxEntries (cache s)"
    using Cons.prems(3) by simp
  obtain r f where d0: "delegate q (fs s) = (r, f)" by fastforce
  with assms(5) obtain p where d: "delegate q (fs s) = (Inr p, f)"
    by (cases r) (auto dest: arg_cong[where f = fst])
  let ?s' = "snd (doWithProject delegate q action s)"
  note step = miss_with_room[where delegate = delegate and q = q and s = s and p = p and f = f
      and a = action, OF q absent room d Cons.prems(4)]
  have faults: "locked (fs ?s') = locked (fs s)" "unreadable (fs ?s') = unreadable (fs s)"
    using step(2) assms(6) d by (metis snd_conv)+
  have 1: "\<forall>q\<in>set ps. readOnly q \<and> shaExact (sha (idRef q))" using Cons.prems(1) by simp
  have 2: "distinct (map fst (entries (cache ?s')) @ map (\<lambda>q. cacheKeyForSha (idRef q)) ps)"
    using Cons.prems(2) step(1) by auto
  have 3: "length (entries (cache ?s')) + length ps \<le> maxEntries (cache ?s')"
    using Cons.prems(3) step(1,3) by simp
  from Cons.IH[OF 1 2 3 step(4)] obtain es where
    es: "entries (cache (requests delegate action ps ?s')) = entries (cache ?s') @ es"
      "map fst es = map (\<lambda>q. cacheKeyForSha (idRef q)) ps"
    and rest: "maxEntries (cache (requests delegate action ps ?s')) = maxEntries (cache ?s')"
      "pending (requests delegate action ps ?s') = []"
      "locked (fs (requests delegate action ps ?s')) = locked (fs ?s')"
      "unreadable (fs (requests delegate action ps ?s')) = unreadable (fs ?s')"
    by blast
  have "entries (cache (requests delegate action (q # ps) s))
      = entries (cache s) @ ((?k, spread p (paramsProps q)) # es)"
    using es(1) step(1) by simp
  moreover have "map fst ((?k, spread p (paramsProps q)) # es) = map (\<lambda>q. cacheKeyForSha (idRef q)) (q # ps)"
    using es(2) by simp
  ultimately have "\<exists>es'. entries (cache (requests delegate action (q # ps) s)) = entries (cache s) @ es'
      \<and> map fst es' = map (\<lambda>q. cacheKeyForSha (idRef q)) (q # ps)"
    by blast
  with rest step(3) faults show ?case by simp
qed

lemma first_key_evicted:
  assumes n: "0 < n" and len: "length ps = n"
    and ok: "\<forall>q\<in>set (p0 # ps). readOnly q \<and> shaExact (sha (idRef q))"
    and dist: "distinct (map (\<lambda>q. cacheKeyForSha (idRef q)) (p0 # ps))"
    and succ: "\<forall>q f e. fst (delegate q f) \<noteq> Inl e"
    and keep: "\<forall>q f. locked (snd (delegate q f)) = locked f \<and> unreadable (snd (delegate q f)) = unreadable f"
    and clean: "locked f0 = {}" "unreadable f0 = {}"
    and first: "delegate p0 f0 = (Inr proj0, f1)"
  shows "map_of (entries (cache (requests delegate action (p0 # ps) (newCachingProjectLoader (Some n) f0))))
           (cacheKeyForSha (idRef p0)) = None"
    and "getProp (spread proj0 (paramsProps p0)) ''baseDir'' = JStr d \<Longrightarrow> d \<noteq> [] \<Longrightarrow>
         d \<notin> existing (fs (requests delegate action (p0 # ps) (newCachingProjectLoader (Some n) f0)))"
proof -
  let ?key = "\<lambda>q. cacheKeyForSha (idRef q)"
  let ?s0 = "newCachingProjectLoader (Some n) f0"
  let ?k0 = "?key p0"
  let ?e0 = "spread proj0 (paramsProps p0)"
  from len n have ne: "ps \<noteq> []" by auto
  define mid where "mid = butlast ps"
  define q where "q = last ps"
  have ps: "ps = mid @ [q]" using ne by (simp add: mid_def q_def)
  have lm: "length mid = n - 1" using len by (simp add: mid_def)
  \<comment> \<open>the first request\<close>
  let ?s1 = "snd (doWithProject delegate p0 action ?s0)"
  have p0: "readOnly p0" "shaExact (sha (idRef p0))" using ok by simp_all
  have s0: "map_of (entries (cache ?s0)) ?k0 = None" "length (entries (cache ?s0)) < maxEntries (cache ?s0)"
    "delegate p0 (fs ?s0) = (Inr proj0, f1)" "pending ?s0 = []"
    using n first by (simp_all add: newCachingProjectLoader_def)
  note step1 = miss_with_room[where delegate = delegate and q = p0 and s = "?s0" and p = proj0
      and f = f1 and a = action, OF p0 s0]
  have e1: "entries (cache ?s1) = [(?k0, ?e0)]" "maxEntries (cache ?s1) = n" "fs ?s1 = f1"
    using step1 by (simp_all add: newCachingProjectLoader_def)
  have f1: "locked f1 = {}" "unreadable f1 = {}"
    using keep clean first by (metis snd_conv)+
  \<comment> \<open>the requests that fill the store\<close>
  let ?s2 = "requests delegate action mid ?s1"
  have 1: "\<forall>q\<in>set mid. readOnly q \<and> shaExact (sha (idRef q))" using ok ps by simp
  have 2: "distinct (map fst (entries (cache ?s1)) @ map ?key mid)"
    using dist ps e1(1) by simp
  have 3: "length (entries (cache ?s1)) + length mid \<le> maxEntries (cache ?s1)"
    using e1 lm n by simp
  from fill[OF 1 2 3 step1(4) succ keep, of action] obtain es where
    es: "entries (cache ?s2) = entries (cache ?s1) @ es" "map fst es = map ?key mid"
    and m2: "maxEntries (cache ?s2) = maxEntries (cache ?s1)"
    and i2: "pending ?s2 = []"
    and l2: "locked (fs ?s2) = locked (fs ?s1)" "unreadable (fs ?s2) = unreadable (fs ?s1)"
    by blast
  have e2: "entries (cache ?s2) = (?k0, ?e0) # es" using es(1) e1(1) by simp
  have les: "length es = n - 1" using es(2) lm by (metis length_map)
  \<comment> \<open>the request that overflows it\<close>
  have q: "readOnly q" "shaExact (sha (idRef q))" using ok ps by simp_all
  have kq: "?key q \<noteq> ?k0" "?key q \<notin> set (map ?key mid)" using dist ps by auto
  have absent: "map_of (entries (cache ?s2)) (?key q) = None"
    using kq es(2) unfolding e2 by (intro map_of_absent) simp
  have full: "maxEntries (cache ?s2) \<le> length (entries (cache ?s2))"
    using m2 e1(2) e2 les n by simp
  obtain r f where d0: "delegate q (fs ?s2) = (r, f)" by fastforce
  with succ obtain p where d: "delegate q (fs ?s2) = (Inr p, f)"
    by (cases r) (auto dest: arg_cong[where f = fst])
  have lf: "locked f = {}" "unreadable f = {}"
    using keep d l2 e1(3) f1 by (metis snd_conv)+
  note last = miss_when_full[where delegate = delegate and q = q and s = "?s2" and p = p and f = f
      and a = action, OF q absent e2 full d i2]
  have final: "requests delegate action (p0 # ps) ?s0 = snd (doWithProject delegate q action ?s2)"
    unfolding ps by (simp add: requests_append)
  have k0es: "?k0 \<notin> set (map fst es)" using dist ps es(2) by auto
  show "map_of (entries (cache (requests delegate action (p0 # ps) ?s0))) ?k0 = None"
    unfolding final last(1) using kq(1) k0es
    by (intro map_of_absent) (auto simp: removeKey_def)
  show "d \<notin> existing (fs (requests delegate action (p0 # ps) ?s0))"
    if "getProp ?e0 ''baseDir'' = JStr d" and "d \<noteq> []"
    unfolding final last(2) that(1)
    using cleanUp_removes[OF that(2), of "?s2\<lparr>fs := f\<rparr>" Eviction] lf by simp
qed

lemma newCachingProjectLoader_bounded: "0 < n \<Longrightarrow> bounded (newCachingProjectLoader (Some n) f0)"
  by (simp add: bounded_def newCachingProjectLoader_def)

lemma LruCache_get_hit_entries:
  "map_of (entries (cache s)) k = Some v \<Longrightarrow>
     entries (cache (snd (LruCache_get k s))) = removeKey k (entries (cache s)) @ [(k, v)]"
  by (simp add: LruCache_get_def Let_def)

lemma exFull_facts:
  "entries (cache exFull) = [(cacheKeyForSha (idRef exRequest), exEntry)]"
  "maxEntries (cache exFull) = 1"
  "pending exFull = []"
  "cleanUp_begins (JStr (exDir exRef)) exFull"
  unfolding exFull_def exEntry_def by code_simp+

lemma exOtherRequest_facts:
  "readOnly exOtherRequest" "shaExact (sha (idRef exOtherRequest))"
  "cacheKeyForSha (idRef exRequest) \<noteq> cacheKeyForSha (idRef exOtherRequest)"
  by (simp_all add: exOtherRequest_def exRequest_def exRef_def exSha_def shaExact_def
      cacheKeyForSha_def list_all_iff)

lemma exDelegate_reliable:
  "\<forall>q f e. fst (exDelegate q f) \<noteq> Inl e"
  "\<forall>q f. locked (snd (exDelegate q f)) = locked f \<and> unreadable (snd (exDelegate q f)) = unreadable f"
  by (simp_all add: exDelegate_def)

text \<open>
  Claim C7, as the code has it. The constructor gives the store the capacity it is passed,
  20 by default. With a positive capacity \<open>n\<close>, no sequence of store operations and no
  sequence of requests leaves more than \<open>n\<close> entries. A put of a new key into a full
  store evicts the entry at the head of the list, the least recently used since a get
  moves the entry it finds to the end, and invokes the eviction callback on it: when the
  entry's directory exists, its reclamation is in flight. In particular \<open>n + 1\<close>
  read-only requests for distinct exact commits on a new loader, with a delegate that
  always delivers and storage on which no access and no removal fails, leave the first
  request's key without an entry and its entry's directory, a non-empty path, removed.
\<close>

theorem cache_store_bounded:
  assumes "0 < n"
  shows "maxEntries (cache (newCachingProjectLoader None f0)) = 20
       \<and> maxEntries (cache (newCachingProjectLoader (Some n) f0)) = n
       \<and> length (entries (cache (fold applyOp ops (newCachingProjectLoader (Some n) f0)))) \<le> n
       \<and> length (entries (cache (requests delegate action rs (newCachingProjectLoader (Some n) f0)))) \<le> n
       \<and> (\<forall>s k v k0 v0 rest.
             map_of (entries (cache s)) k = None \<and> maxEntries (cache s) \<le> length (entries (cache s))
             \<and> entries (cache s) = (k0, v0) # rest \<longrightarrow>
               entries (cache (LruCache_put evictionCallback k v s)) = removeKey k0 rest @ [(k, v)]
             \<and> pending (LruCache_put evictionCallback k v s)
                 = pending s @ (if cleanUp_begins (getProp v0 ''baseDir'') s
                                then [(getProp v0 ''baseDir'', Eviction)] else []))
       \<and> (\<forall>s k v. map_of (entries (cache s)) k = Some v \<longrightarrow>
             entries (cache (snd (LruCache_get k s))) = removeKey k (entries (cache s)) @ [(k, v)])
       \<and> (\<forall>p0 ps proj0 f1 d.
             length ps = n
             \<and> (\<forall>q\<in>set (p0 # ps). readOnly q \<and> shaExact (sha (idRef q)))
             \<and> distinct (map (\<lambda>q. cacheKeyForSha (idRef q)) (p0 # ps))
             \<and> (\<forall>q f e. fst (delegate q f) \<noteq> Inl e)
             \<and> (\<forall>q f. locked (snd (delegate q f)) = locked f
                      \<and> unreadable (snd (delegate q f)) = unreadable f)
             \<and> locked f0 = {} \<and> unreadable f0 = {}
             \<and> delegate p0 f0 = (Inr proj0, f1)
             \<and> getProp (spread proj0 (paramsProps p0)) ''baseDir'' = JStr d \<and> d \<noteq> [] \<longrightarrow>
               map_of (entries (cache (requests delegate action (p0 # ps) (newCachingProjectLoader (Some n) f0))))
                 (cacheKeyForSha (idRef p0)) = None
             \<and> d \<notin> existing (fs (requests delegate action (p0 # ps) (newCachingProjectLoader (Some n) f0))))"
proof -
  note b = newCachingProjectLoader_bounded[OF assms, of f0]
  have cap: "maxEntries (cache (newCachingProjectLoader None f0)) = 20"
    "maxEntries (cache (newCachingProjectLoader (Some n) f0)) = n"
    by (simp_all add: newCachingProjectLoader_def)
  have ops: "length (entries (cache (fold applyOp ops (newCachingProjectLoader (Some n) f0)))) \<le> n"
    using applyOps_bounded[OF b, of ops] cap(2) by (simp add: bounded_def)
  have reqs: "length (entries (cache (requests delegate action rs (newCachingProjectLoader (Some n) f0)))) \<le> n"
    using requests_bounded[OF b, of delegate action rs] cap(2) by (simp add: bounded_def)
  have lru: "entries (cache (LruCache_put evictionCallback k v s)) = removeKey k0 rest @ [(k, v)]
             \<and> pending (LruCache_put evictionCallback k v s)
                 = pending s @ (if cleanUp_begins (getProp v0 ''baseDir'') s
                                then [(getProp v0 ''baseDir'', Eviction)] else [])"
    if "map_of (entries (cache s)) k = None" "maxEntries (cache s) \<le> length (entries (cache s))"
      "entries (cache s) = (k0, v0) # rest" for s k v k0 v0 rest
    using LruCache_put_full[OF that, of v] by simp
  have e2e: "map_of (entries (cache (requests delegate action (p0 # ps) (newCachingProjectLoader (Some n) f0))))
                 (cacheKeyForSha (idRef p0)) = None
             \<and> d \<notin> existing (fs (requests delegate action (p0 # ps) (newCachingProjectLoader (Some n) f0)))"
    if "length ps = n" "\<forall>q\<in>set (p0 # ps). readOnly q \<and> shaExact (sha (idRef q))"
      "distinct (map (\<lambda>q. cacheKeyForSha (idRef q)) (p0 # ps))"
      "\<forall>q f e. fst (delegate q f) \<noteq> Inl e"
      "\<forall>q f. locked (snd (delegate q f)) = locked f \<and> unreadable (snd (delegate q f)) = unreadable f"
      "locked f0 = {}" "unreadable f0 = {}" "delegate p0 f0 = (Inr proj0, f1)"
      "getProp (spread proj0 (paramsProps p0)) ''baseDir'' = JStr d" "d \<noteq> []"
    for p0 ps proj0 f1 d
    using first_key_evicted[where delegate = delegate and action = action, OF assms that(1-8)] that(9,10)
    by simp
  have lruH: "\<forall>s k v k0 v0 rest.
             map_of (entries (cache s)) k = None \<and> maxEntries (cache s) \<le> length (entries (cache s))
             \<and> entries (cache s) = (k0, v0) # rest \<longrightarrow>
               entries (cache (LruCache_put evictionCallback k v s)) = removeKey k0 rest @ [(k, v)]
             \<and> pending (LruCache_put evictionCallback k v s)
                 = pending s @ (if cleanUp_begins (getProp v0 ''baseDir'') s
                                then [(getProp v0 ''baseDir'', Eviction)] else [])"
    using lru by blast
  have getH: "\<forall>s k v. map_of (entries (cache s)) k = Some v \<longrightarrow>
             entries (cache (snd (LruCache_get k s))) = removeKey k (entries (cache s)) @ [(k, v)]"
    using LruCache_get_hit_entries by blast
  have e2eH: "\<forall>p0 ps proj0 f1 d.
             length ps = n
             \<and> (\<forall>q\<in>set (p0 # ps). readOnly q \<and> shaExact (sha (idRef q)))
             \<and> distinct (map (\<lambda>q. cacheKeyForSha (idRef q)) (p0 # ps))
             \<and> (\<forall>q f e. fst (delegate q f) \<noteq> Inl e)
             \<and> (\<forall>q f. locked (snd (delegate q f)) = locked f
                      \<and> unreadable (snd (delegate q f)) = unreadable f)
             \<and> locked f0 = {} \<and> unreadable f0 = {}
             \<and> delegate p0 f0 = (Inr proj0, f1)
             \<and> getProp (spread proj0 (paramsProps p0)) ''baseDir'' = JStr d \<and> d \<noteq> [] \<longrightarrow>
               map_of (entries (cache (requests delegate action (p0 # ps) (newCachingProjectLoader (Some n) f0))))
                 (cacheKeyForSha (idRef p0)) = None
             \<and> d \<notin> existing (fs (requests delegate action (p0 # ps) (newCachingProjectLoader (Some n) f0)))"
    by (intro allI impI, elim conjE, rule e2e)
  from cap ops reqs lruH getH e2eH show ?thesis by (intro conjI)
qed

theorem cache_store_bounded_witness:
  "(0::nat) < 1
   \<and> maxEntries (cache (newCachingProjectLoader None exStorage)) = 20
   \<and> length (entries (cache (requests exDelegate exAction [exRequest, exOtherRequest]
                              (newCachingProjectLoader (Some 1) exStorage)))) \<le> 1
   \<and> map_of (entries (cache (requests exDelegate exAction [exRequest, exOtherRequest]
                              (newCachingProjectLoader (Some 1) exStorage))))
        (cacheKeyForSha (idRef exRequest)) = None
   \<and> exDir exRef \<notin> existing (fs (requests exDelegate exAction [exRequest, exOtherRequest]
                                   (newCachingProjectLoader (Some 1) exStorage)))
   \<and> entries (cache (LruCache_put evictionCallback (cacheKeyForSha (idRef exOtherRequest)) exEntry exFull))
       = [(cacheKeyForSha (idRef exOtherRequest), exEntry)]
   \<and> pending (LruCache_put evictionCallback (cacheKeyForSha (idRef exOtherRequest)) exEntry exFull)
       = [(JStr (exDir exRef), Eviction)]
   \<and> entries (cache (snd (LruCache_get (cacheKeyForSha (idRef exRequest)) exFull)))
       = [(cacheKeyForSha (idRef exRequest), exEntry)]"
proof -
  have n: "(0::nat) < 1" by simp
  have h: "length [exOtherRequest] = 1"
    "\<forall>q\<in>set [exRequest, exOtherRequest]. readOnly q \<and> shaExact (sha (idRef q))"
    "distinct (map (\<lambda>q. cacheKeyForSha (idRef q)) [exRequest, exOtherRequest])"
    "locked exStorage = {}" "unreadable exStorage = {}"
    "exDelegate exRequest exStorage = (Inr (exProject exRef), exStorage\<lparr>existing := {exDir exRef}\<rparr>)"
    "getProp (spread (exProject exRef) (paramsProps exRequest)) ''baseDir'' = JStr (exDir exRef)"
    "exDir exRef \<noteq> []"
    using exRequest_facts exOtherRequest_facts
    by (simp_all add: exStorage_def exDelegate_def getProp_spread paramsProps_lookup exProject_def exDir_def)
  note t = cache_store_bounded[OF n, where ?f0.0 = exStorage and delegate = exDelegate
      and action = exAction and rs = "[exRequest, exOtherRequest]"]
  from t have 1: "maxEntries (cache (newCachingProjectLoader None exStorage)) = 20"
    and 2: "length (entries (cache (requests exDelegate exAction [exRequest, exOtherRequest]
                              (newCachingProjectLoader (Some 1) exStorage)))) \<le> 1"
    by simp_all
  from t h exDelegate_reliable
  have 3: "map_of (entries (cache (requests exDelegate exAction [exRequest, exOtherRequest]
                              (newCachingProjectLoader (Some 1) exStorage))))
        (cacheKeyForSha (idRef exRequest)) = None
   \<and> exDir exRef \<notin> existing (fs (requests exDelegate exAction [exRequest, exOtherRequest]
                                   (newCachingProjectLoader (Some 1) exStorage)))"
    by blast
  have full: "map_of (entries (cache exFull)) (cacheKeyForSha (idRef exOtherRequest)) = None
      \<and> maxEntries (cache exFull) \<le> length (entries (cache exFull))
      \<and> entries (cache exFull) = (cacheKeyForSha (idRef exRequest), exEntry) # []"
    using exOtherRequest_facts(3) by (simp add: exFull_facts)
  from t full
  have 4: "entries (cache (LruCache_put evictionCallback (cacheKeyForSha (idRef exOtherRequest)) exEntry exFull))
       = removeKey (cacheKeyForSha (idRef exRequest)) [] @ [(cacheKeyForSha (idRef exOtherRequest), exEntry)]
   \<and> pending (LruCache_put evictionCallback (cacheKeyForSha (idRef exOtherRequest)) exEntry exFull)
       = pending exFull @ (if cleanUp_begins (getProp exEntry ''baseDir'') exFull
                           then [(getProp exEntry ''baseDir'', Eviction)] else [])"
    by blast
  have present: "map_of (entries (cache exFull)) (cacheKeyForSha (idRef exRequest)) = Some exEntry"
    by (simp add: exFull_facts)
  from t present
  have 5: "entries (cache (snd (LruCache_get (cacheKeyForSha (idRef exRequest)) exFull)))
       = removeKey (cacheKeyForSha (idRef exRequest)) (entries (cache exFull))
           @ [(cacheKeyForSha (idRef exRequest), exEntry)]"
    by blast
  from n 1 2 3 4 5 show ?thesis
    by (simp add: removeKey_def exFull_facts exEntry_props)
qed

text \<open>
  Claim C7, as stated, fails in two ways. A store of capacity 0 holds one entry after one
  request: there is no entry to evict before the insertion. And with capacity 1 and
  storage on which the first checkout's directory cannot be removed, the second of two
  requests for distinct commits evicts the first key's entry while its directory stays:
  the removal that the eviction callback attempts fails and is logged as a warning.
\<close>

theorem capacity_exceeded_and_directory_left:
  "maxEntries (cache (newCachingProjectLoader (Some 0) exStorage)) = 0
   \<and> length (entries (cache (requests exDelegate exAction [exRequest]
                              (newCachingProjectLoader (Some 0) exStorage)))) = 1
   \<and> cacheKeyForSha (idRef exRequest) \<noteq> cacheKeyForSha (idRef exOtherRequest)
   \<and> map_of (entries (cache (requests exDelegate exAction [exRequest, exOtherRequest]
                              (newCachingProjectLoader (Some 1) exLockedStorage))))
        (cacheKeyForSha (idRef exRequest)) = None
   \<and> exDir exRef \<in> existing (fs (requests exDelegate exAction [exRequest, exOtherRequest]
                                   (newCachingProjectLoader (Some 1) exLockedStorage)))
   \<and> logger (requests exDelegate exAction [exRequest, exOtherRequest]
               (newCachingProjectLoader (Some 1) exLockedStorage))
       = [Debug ''Attempting to reuse clone for readonly use'', Debug ''Caching project'',
          Debug ''About to invoke action'',
          Debug ''Attempting to reuse clone for readonly use'', Debug ''Caching project'',
          Debug ''About to invoke action'',
          Deleting (JStr (exDir exRef)) Eviction, Warn (EPERM (exDir exRef))]"
proof -
  have 1: "maxEntries (cache (newCachingProjectLoader (Some 0) exStorage)) = 0"
    by (simp add: newCachingProjectLoader_def)
  have 2: "length (entries (cache (requests exDelegate exAction [exRequest]
                              (newCachingProjectLoader (Some 0) exStorage)))) = 1"
    by code_simp
  have 3: "map_of (entries (cache (requests exDelegate exAction [exRequest, exOtherRequest]
                              (newCachingProjectLoader (Some 1) exLockedStorage))))
        (cacheKeyForSha (idRef exRequest)) = None"
    by code_simp
  have 4: "exDir exRef \<in> existing (fs (requests exDelegate exAction [exRequest, exOtherRequest]
                                   (newCachingProjectLoader (Some 1) exLockedStorage)))"
    by code_simp
  have 5: "logger (requests exDelegate exAction [exRequest, exOtherRequest]
               (newCachingProjectLoader (Some 1) exLockedStorage))
       = [Debug ''Attempting to reuse clone for readonly use'', Debug ''Caching project'',
          Debug ''About to invoke action'',
          Debug ''Attempting to reuse clone for readonly use'', Debug ''Caching project'',
          Debug ''About to invoke action'',
          Deleting (JStr (exDir exRef)) Eviction, Warn (EPERM (exDir exRef))]"
    by code_simp
  from 1 2 exOtherRequest_facts(3) 3 4 5 show ?thesis by (intro conjI)
qed

end
